theory Spec2Isabelle
  imports Complex_Main "HOL-Library.Log_Nat" "HOL-Library.Word" "HOL-Library.Sublist"
begin

section \<open>JavaScript numbers\<close>

text \<open>
  Every JavaScript \<^verbatim>\<open>Number\<close> is an IEEE 754 binary64 value, and \<^verbatim>\<open>/\<close> and \<^verbatim>\<open>*\<close>
  return the exact result rounded to the nearest binary64 value, ties to the even
  significand. A finite number is modelled by the real it denotes; \<open>toDouble\<close> is that
  rounding (normal and subnormal range; the numbers of this program stay far below the
  overflow threshold \<open>2 ^ 1024\<close>). \<open>binexp x\<close> is the binary exponent
  \<open>\<lfloor>log\<^sub>2 x\<rfloor>\<close> of a positive \<open>x\<close>, computed on the integer part of \<open>x\<close> or of \<open>1 / x\<close>.
\<close>

definition binexp :: "real \<Rightarrow> int" where
  "binexp x = (if 1 \<le> x then int (floorlog 2 (nat \<lfloor>x\<rfloor>)) - 1
               else - int (floorlog 2 (nat (\<lceil>1 / x\<rceil> - 1))))"

definition roundTiesToEven :: "real \<Rightarrow> int" where
  "roundTiesToEven x =
     (let n = \<lfloor>x\<rfloor>; r = x - of_int n
      in if r < 1 / 2 then n else if 1 / 2 < r then n + 1 else if even n then n else n + 1)"

definition toDouble :: "real \<Rightarrow> real" where
  "toDouble x =
     (if x = 0 then 0
      else let a = \<bar>x\<bar>; ulp = 2 powi (max (binexp a) (- 1022) - 52)
           in sgn x * (of_int (roundTiesToEven (a / ulp)) * ulp))"

text \<open>A number that may also be one of the three non-finite values.\<close>

datatype jsnum = Num real | PosInfinity | NegInfinity | NaN

section \<open>Frame extraction (\<^verbatim>\<open>extractFirstFrame\<close>, two variants)\<close>

text \<open>
  The repository holds two versions of \<^verbatim>\<open>extractFirstFrame\<close>: a bare one
  (\<^verbatim>\<open>part_001\<close>) and a guarded one (\<^verbatim>\<open>part_002\<close>, with the browser check, the
  15 s timer, the \<^verbatim>\<open>cleanup\<close> closure and the zero-dimension check). Both are promise
  executors driven by the events of a \<^verbatim>\<open>video\<close> element. One run is described by
  what the browser and the file do:
  \<^item> \<open>hasWindowDocument\<close>: \<^verbatim>\<open>window\<close> and \<^verbatim>\<open>document\<close> are defined;
  \<^item> \<open>createObjectURLThrows\<close>: \<^verbatim>\<open>URL.createObjectURL(videoFile)\<close> (or the assignment
    of \<^verbatim>\<open>video.src\<close>) throws;
  \<^item> \<open>events\<close>: the media events the element fires, in firing order, each with the
    milliseconds elapsed since the call;
  \<^item> \<open>duration\<close>, \<open>videoWidth\<close>, \<open>videoHeight\<close>: the element's attributes
    (\<^verbatim>\<open>videoWidth\<close> and \<^verbatim>\<open>videoHeight\<close> are \<^verbatim>\<open>unsigned long\<close>);
  \<^item> \<open>getContext2d\<close>: \<^verbatim>\<open>canvas.getContext('2d')\<close> returns a context;
  \<^item> \<open>encode mime quality t w h\<close>: \<^verbatim>\<open>drawImage\<close> of the frame shown at time \<open>t\<close> on a
    \<open>w \<times> h\<close> canvas followed by \<^verbatim>\<open>toDataURL(mime, quality)\<close>; \<open>None\<close> when either
    throws.
\<close>

datatype media_event = LoadedData | Seeked | MediaError

record extract_env =
  hasWindowDocument :: bool
  createObjectURLThrows :: bool
  events :: "(nat \<times> media_event) list"
  duration :: jsnum
  videoWidth :: "32 word"
  videoHeight :: "32 word"
  getContext2d :: bool
  encode :: "string \<Rightarrow> real \<Rightarrow> real \<Rightarrow> int \<Rightarrow> int \<Rightarrow> string option"

text \<open>
  The errors a run can reject with. The first seven are the guarded variant's
  (not a browser, URL creation failed, timer fired, zero dimensions, no canvas context,
  an exception of \<^verbatim>\<open>drawImage\<close>/\<^verbatim>\<open>toDataURL\<close> passed to \<^verbatim>\<open>reject\<close>, \<^verbatim>\<open>onerror\<close>);
  the last four are the bare variant's (the \<^verbatim>\<open>ReferenceError\<close> of an undefined
  \<^verbatim>\<open>document\<close> and the exception of \<^verbatim>\<open>createObjectURL\<close>, both thrown inside the
  executor and so turned into rejections; "Could not get canvas context";
  "Error loading video file").
\<close>

datatype extract_error =
    NotBrowser
  | LoadFileFailed
  | TimeoutExceeded
  | InvalidDimensions
  | CanvasContextMissing
  | CanvasException
  | DecodeFailed
  | BareReferenceError
  | BareCreateUrlException
  | BareCanvasContext
  | BareLoadError

record frame =
  base64 :: "string option"
  mimeType :: string
  width :: int
  height :: int

datatype outcome = Resolved frame | Rejected extract_error

text \<open>
  The state of a run: the promise (\<open>None\<close> while pending) and the temporary handles:
  the \<^verbatim>\<open>video\<close> element, the timer, the object URL, the three event handlers.
\<close>

record extract_state =
  promise :: "outcome option"
  videoCreated :: bool
  timerArmed :: bool
  urlLive :: bool
  handlersAttached :: bool
  videoRemoved :: bool
  currentTime :: real

definition initialState :: extract_state where
  "initialState =
     \<lparr>promise = None, videoCreated = False, timerArmed = False, urlLive = False,
      handlersAttached = False, videoRemoved = False, currentTime = 0\<rparr>"

text \<open>\<^verbatim>\<open>resolve\<close> and \<^verbatim>\<open>reject\<close> only act on a pending promise.\<close>

definition settle :: "outcome \<Rightarrow> extract_state \<Rightarrow> extract_state" where
  "settle out st = (if promise st = None then st\<lparr>promise := Some out\<rparr> else st)"

text \<open>
  The resizing block shared by both \<^verbatim>\<open>onseeked\<close> handlers:
  \<^verbatim>\<open>if (width > 1024 || height > 1024) { scale = 1024 / Math.max(width, height);
  width = Math.floor(width * scale); height = Math.floor(height * scale) }\<close>.
\<close>

definition resizeDimensions :: "32 word \<Rightarrow> 32 word \<Rightarrow> int \<times> int" where
  "resizeDimensions vw vh =
     (let width = uint vw; height = uint vh
      in if width > 1024 \<or> height > 1024
         then let scale = toDouble (1024 / of_int (max width height))
              in (\<lfloor>toDouble (of_int width * scale)\<rfloor>, \<lfloor>toDouble (of_int height * scale)\<rfloor>)
         else (width, height))"

text \<open>
  \<^verbatim>\<open>dataUrl.split(',')[1]\<close>: the piece between the first and the second comma,
  \<^verbatim>\<open>undefined\<close> (\<open>None\<close>) when there is no comma.
\<close>

definition splitSecond :: "string \<Rightarrow> string option" where
  "splitSecond s =
     (case dropWhile (\<lambda>c. c \<noteq> CHR '','') s of
        [] \<Rightarrow> None
      | _ # rest \<Rightarrow> Some (takeWhile (\<lambda>c. c \<noteq> CHR '','') rest))"

definition jpegQuality :: real where
  "jpegQuality = toDouble (85 / 100)"

subsection \<open>The guarded variant\<close>

text \<open>
  \<^verbatim>\<open>cleanup\<close>: clear the timer, revoke the URL, detach the three handlers, remove the
  element.
\<close>

definition cleanup :: "extract_state \<Rightarrow> extract_state" where
  "cleanup st =
     st\<lparr>timerArmed := False, urlLive := False, handlersAttached := False, videoRemoved := True\<rparr>"

text \<open>
  \<^verbatim>\<open>duration = Number.isFinite(video.duration) ? video.duration : 10;
  targetTime = Math.min(0.1, duration > 0 ? duration / 2 : 0)\<close>.
\<close>

definition seekTarget_guarded :: "jsnum \<Rightarrow> real" where
  "seekTarget_guarded d =
     (let dur = (case d of Num r \<Rightarrow> r | _ \<Rightarrow> 10)
      in min (toDouble (1 / 10)) (if dur > 0 then toDouble (dur / 2) else 0))"

definition onseeked_guarded :: "extract_env \<Rightarrow> extract_state \<Rightarrow> extract_state" where
  "onseeked_guarded env st =
     (if uint (videoWidth env) = 0 \<or> uint (videoHeight env) = 0
      then settle (Rejected InvalidDimensions) (cleanup st)
      else (case resizeDimensions (videoWidth env) (videoHeight env) of (w, h) \<Rightarrow>
        if \<not> getContext2d env then settle (Rejected CanvasContextMissing) (cleanup st)
        else (case encode env ''image/jpeg'' jpegQuality (currentTime st) w h of
                None \<Rightarrow> settle (Rejected CanvasException) (cleanup st)
              | Some dataUrl \<Rightarrow>
                  settle (Resolved \<lparr>base64 = splitSecond dataUrl, mimeType = ''image/jpeg'',
                                    width = w, height = h\<rparr>) (cleanup st))))"

definition dispatch_guarded :: "extract_env \<Rightarrow> media_event \<Rightarrow> extract_state \<Rightarrow> extract_state" where
  "dispatch_guarded env ev st =
     (if \<not> handlersAttached st then st
      else (case ev of
              LoadedData \<Rightarrow> st\<lparr>currentTime := seekTarget_guarded (duration env)\<rparr>
            | Seeked \<Rightarrow> onseeked_guarded env st
            | MediaError \<Rightarrow> settle (Rejected DecodeFailed) (cleanup st)))"

fun deliver_guarded :: "extract_env \<Rightarrow> (nat \<times> media_event) list \<Rightarrow> extract_state \<Rightarrow> extract_state" where
  "deliver_guarded env [] st = st"
| "deliver_guarded env ((t, ev) # rest) st = deliver_guarded env rest (dispatch_guarded env ev st)"

text \<open>The callback of \<^verbatim>\<open>setTimeout(..., 15000)\<close>; it does not run once cleared.\<close>

definition timerFires :: "extract_state \<Rightarrow> extract_state" where
  "timerFires st = (if timerArmed st then settle (Rejected TimeoutExceeded) (cleanup st) else st)"

definition beforeDeadline :: "nat \<times> media_event \<Rightarrow> bool" where
  "beforeDeadline e = (fst e < 15000)"

text \<open>
  The whole run: the synchronous part of the executor, then the media events that fire
  before the 15000 ms deadline, the timer callback, and the events after it. The result is
  the final state, whose \<open>promise\<close> is what the caller observes.
\<close>

definition extractFirstFrame_guarded :: "extract_env \<Rightarrow> extract_state" where
  "extractFirstFrame_guarded env =
     (if \<not> hasWindowDocument env then settle (Rejected NotBrowser) initialState
      else let st1 = initialState\<lparr>videoCreated := True, timerArmed := True\<rparr>
           in if createObjectURLThrows env then settle (Rejected LoadFileFailed) (cleanup st1)
              else let st2 = st1\<lparr>urlLive := True, handlersAttached := True\<rparr>
                   in deliver_guarded env (dropWhile beforeDeadline (events env))
                        (timerFires (deliver_guarded env (takeWhile beforeDeadline (events env)) st2)))"

subsection \<open>The bare variant\<close>

text \<open>
  No browser check, no timer, no zero-dimension check, no \<^verbatim>\<open>try\<close>: an exception of
  \<^verbatim>\<open>drawImage\<close> or \<^verbatim>\<open>toDataURL\<close> leaves the handler without settling the promise or
  revoking the URL. The handlers stay attached, and the seek target is the constant
  \<^verbatim>\<open>0.1\<close>.
\<close>

definition seekTarget_bare :: "jsnum \<Rightarrow> real" where
  "seekTarget_bare d = toDouble (1 / 10)"

definition onseeked_bare :: "extract_env \<Rightarrow> extract_state \<Rightarrow> extract_state" where
  "onseeked_bare env st =
     (case resizeDimensions (videoWidth env) (videoHeight env) of (w, h) \<Rightarrow>
        if \<not> getContext2d env then settle (Rejected BareCanvasContext) (st\<lparr>urlLive := False\<rparr>)
        else (case encode env ''image/jpeg'' jpegQuality (currentTime st) w h of
                None \<Rightarrow> st
              | Some dataUrl \<Rightarrow>
                  settle (Resolved \<lparr>base64 = splitSecond dataUrl, mimeType = ''image/jpeg'',
                                    width = w, height = h\<rparr>) (st\<lparr>urlLive := False\<rparr>)))"

definition dispatch_bare :: "extract_env \<Rightarrow> media_event \<Rightarrow> extract_state \<Rightarrow> extract_state" where
  "dispatch_bare env ev st =
     (case ev of
        LoadedData \<Rightarrow> st\<lparr>currentTime := seekTarget_bare (duration env)\<rparr>
      | Seeked \<Rightarrow> onseeked_bare env st
      | MediaError \<Rightarrow> settle (Rejected BareLoadError) (st\<lparr>urlLive := False\<rparr>))"

fun deliver_bare :: "extract_env \<Rightarrow> (nat \<times> media_event) list \<Rightarrow> extract_state \<Rightarrow> extract_state" where
  "deliver_bare env [] st = st"
| "deliver_bare env ((t, ev) # rest) st = deliver_bare env rest (dispatch_bare env ev st)"

definition extractFirstFrame_bare :: "extract_env \<Rightarrow> extract_state" where
  "extractFirstFrame_bare env =
     (if \<not> hasWindowDocument env then settle (Rejected BareReferenceError) initialState
      else let st1 = initialState\<lparr>videoCreated := True\<rparr>
           in if createObjectURLThrows env then settle (Rejected BareCreateUrlException) st1
              else deliver_bare env (events env) (st1\<lparr>urlLive := True, handlersAttached := True\<rparr>))"

text \<open>
  No temporary handle of the run is still held: the URL is revoked, the timer cleared,
  the handlers detached, and the element removed if (and only if) one was created.
\<close>

definition released :: "extract_state \<Rightarrow> bool" where
  "released st \<longleftrightarrow>
     \<not> urlLive st \<and> \<not> timerArmed st \<and> \<not> handlersAttached st \<and> videoRemoved st = videoCreated st"

section \<open>Video generation (\<^verbatim>\<open>generateCleanVideo\<close>)\<close>

text \<open>
  Strings are byte strings holding the UTF-8 encoding of the source's text; the needles of
  \<^verbatim>\<open>includes\<close> are ASCII, for which a byte-wise search finds what the search on UTF-16
  code units finds. A thrown value is modelled by its \<^verbatim>\<open>message\<close> property
  (\<open>None\<close> when it has none).
\<close>

type_synonym js_error = "string option"

text \<open>A string used as a condition: \<^verbatim>\<open>undefined\<close> and \<^verbatim>\<open>""\<close> are falsy.\<close>

definition truthy :: "string option \<Rightarrow> bool" where
  "truthy s = (case s of None \<Rightarrow> False | Some t \<Rightarrow> t \<noteq> [])"

text \<open>\<^verbatim>\<open>s || fallback\<close> on strings.\<close>

definition orElse :: "string option \<Rightarrow> string \<Rightarrow> string" where
  "orElse s fallback = (case s of None \<Rightarrow> fallback | Some t \<Rightarrow> if t = [] then fallback else t)"

text \<open>\<^verbatim>\<open>haystack.includes(needle)\<close> (\<open>includes\<close> is a keyword of Isabelle).\<close>

fun includes_str :: "string \<Rightarrow> string \<Rightarrow> bool" where
  "includes_str [] needle = (needle = [])"
| "includes_str (c # rest) needle = (prefix needle (c # rest) \<or> includes_str rest needle)"

definition noApiKeyMessage :: string where
  "noApiKeyMessage =
     ''Chave de API n'' @ [CHR 0xC3, CHR 0xA3] @ ''o detectada no ambiente. O aplicativo requer uma API Key configurada internamente.''"

definition noOperationIdMessage :: string where
  "noOperationIdMessage =
     ''A API n'' @ [CHR 0xC3, CHR 0xA3] @ ''o retornou um ID de opera'' @ [CHR 0xC3, CHR 0xA7, CHR 0xC3, CHR 0xA3] @ ''o v'' @ [CHR 0xC3, CHR 0xA1] @ ''lido.''"

definition operationLostMessage :: string where
  "operationLostMessage =
     ''A opera'' @ [CHR 0xC3, CHR 0xA7, CHR 0xC3, CHR 0xA3] @ ''o de v'' @ [CHR 0xC3, CHR 0xAD] @ ''deo foi perdida pelo servidor (404). Tente novamente.''"

definition noVideoUriMessage :: string where
  "noVideoUriMessage =
     ''Nenhum URI de v'' @ [CHR 0xC3, CHR 0xAD] @ ''deo retornado.''"

definition generationFailedPrefix :: string where
  "generationFailedPrefix =
     ''Falha na gera'' @ [CHR 0xC3, CHR 0xA7, CHR 0xC3, CHR 0xA3] @ ''o: ''"

definition downloadFailedPrefix :: string where
  "downloadFailedPrefix =
     ''Falha ao baixar v'' @ [CHR 0xC3, CHR 0xAD] @ ''deo gerado: ''"

definition unknownErrorMessage :: string where
  "unknownErrorMessage =
     ''Erro desconhecido ao comunicar com a API Gemini.''"

definition notFoundMessage :: string where
  "notFoundMessage =
     ''O modelo de v'' @ [CHR 0xC3, CHR 0xAD] @ ''deo ou a opera'' @ [CHR 0xC3, CHR 0xA7, CHR 0xC3, CHR 0xA3] @ ''o n'' @ [CHR 0xC3, CHR 0xA3] @ ''o foi encontrada. Verifique se sua conta tem acesso ao modelo Veo.''"

definition quotaMessage :: string where
  "quotaMessage =
     ''Limite de requisi'' @ [CHR 0xC3, CHR 0xA7, CHR 0xC3, CHR 0xB5] @ ''es excedido (Quota). Tente novamente em alguns instantes.''"


record operation =
  opName :: "string option"
  opDone :: bool
  videoUri :: "string option"
  opErrorMessage :: "string option"

record video_request =
  model :: string
  requestPrompt :: string
  imageBytes :: "string option"
  imageMimeType :: string
  numberOfVideos :: nat
  resolution :: string
  aspectRatio :: string

datatype api_call = GenerateVideos video_request | GetVideosOperation string | Fetch string

text \<open>
  What the service and the network do in one call of \<^verbatim>\<open>generateCleanVideo\<close>: the API
  key of the environment, the result of \<^verbatim>\<open>generateVideos\<close> and of each successive
  \<^verbatim>\<open>getVideosOperation\<close> (\<open>Inl\<close> when the call throws), the response of \<^verbatim>\<open>fetch\<close>
  (\<^verbatim>\<open>ok\<close>, \<^verbatim>\<open>status\<close> in decimal, \<^verbatim>\<open>statusText\<close>) and the object URL made of the
  downloaded blob.
\<close>

record gen_env =
  apiKey :: "string option"
  generateVideosResult :: "js_error + operation"
  pollResults :: "(js_error + operation) list"
  fetchResult :: "js_error + (bool \<times> string \<times> string)"
  blobResult :: "js_error + string"

text \<open>
  The result seen by the caller: the returned URL, the message of the thrown
  \<^verbatim>\<open>Error\<close>, or \<open>StillPolling\<close> when the recorded poll results end while the operation
  is not done (the loop has no bound of its own).
\<close>

datatype gen_result = Returned string | Thrown string | StillPolling

definition fullPrompt :: "string \<Rightarrow> string" where
  "fullPrompt promptDescription =
     ''Cinematic, high quality video. '' @ promptDescription @
     ''. '' @ [CHR 0x0A] @ ''  Clear visual, no watermarks, no overlay text, clean composition. Photorealistic. Keep the original scene structure but remove overlay elements.''"

definition videoRequest :: "string option \<Rightarrow> string \<Rightarrow> string \<Rightarrow> string \<Rightarrow> video_request" where
  "videoRequest imageBase64 mime promptDescription ratio =
     \<lparr>model = ''veo-3.1-fast-generate-preview'', requestPrompt = fullPrompt promptDescription,
      imageBytes = imageBase64, imageMimeType = mime, numberOfVideos = 1,
      resolution = ''720p'', aspectRatio = ratio\<rparr>"

text \<open>\<^verbatim>\<open>pollError.message && pollError.message.includes('404')\<close>.\<close>

definition isNotFound :: "js_error \<Rightarrow> bool" where
  "isNotFound pollError = (case pollError of None \<Rightarrow> False | Some m \<Rightarrow> m \<noteq> [] \<and> includes_str m ''404'')"

text \<open>
  The \<^verbatim>\<open>while (!operation.done)\<close> loop. Every iteration calls
  \<^verbatim>\<open>getVideosOperation({ name: operationName })\<close>; the inner \<^verbatim>\<open>catch\<close> replaces a
  404 error by the "operation lost" error and rethrows any other. The result is the done
  operation, the thrown error, or \<open>None\<close> when the recorded results are used up.
\<close>

fun pollLoop ::
  "string \<Rightarrow> operation \<Rightarrow> (js_error + operation) list \<Rightarrow> api_call list
     \<Rightarrow> (js_error + operation) option \<times> api_call list" where
  "pollLoop operationName operation [] trace =
     (if opDone operation then (Some (Inr operation), trace) else (None, trace))"
| "pollLoop operationName operation (r # rest) trace =
     (if opDone operation then (Some (Inr operation), trace)
      else (case r of
              Inr refreshed \<Rightarrow>
                pollLoop operationName refreshed rest (trace @ [GetVideosOperation operationName])
            | Inl pollError \<Rightarrow>
                (Some (Inl (if isNotFound pollError then Some operationLostMessage else pollError)),
                 trace @ [GetVideosOperation operationName])))"

text \<open>What follows the loop: the URI check, the download, the object URL.\<close>

definition download :: "string \<Rightarrow> operation \<Rightarrow> gen_env \<Rightarrow> api_call list
     \<Rightarrow> (js_error + string) option \<times> api_call list" where
  "download key operation env trace =
     (if \<not> truthy (videoUri operation)
      then (Some (Inl (Some (generationFailedPrefix @
                               orElse (opErrorMessage operation) noVideoUriMessage))), trace)
      else let downloadUrl = orElse (videoUri operation) [] @ ''&key='' @ key;
               trace' = trace @ [Fetch downloadUrl]
           in (case fetchResult env of
                 Inl e \<Rightarrow> (Some (Inl e), trace')
               | Inr (ok, status, statusText) \<Rightarrow>
                   if \<not> ok
                   then (Some (Inl (Some (downloadFailedPrefix @ status @ '' '' @ statusText))), trace')
                   else (case blobResult env of
                           Inl e \<Rightarrow> (Some (Inl e), trace')
                         | Inr url \<Rightarrow> (Some (Inr url), trace'))))"

text \<open>The body of the \<^verbatim>\<open>try\<close> block.\<close>

definition tryBody :: "string option \<Rightarrow> string \<Rightarrow> string \<Rightarrow> string \<Rightarrow> string \<Rightarrow> gen_env
     \<Rightarrow> (js_error + string) option \<times> api_call list" where
  "tryBody imageBase64 mime promptDescription ratio key env =
     (let trace = [GenerateVideos (videoRequest imageBase64 mime promptDescription ratio)]
      in case generateVideosResult env of
           Inl e \<Rightarrow> (Some (Inl e), trace)
         | Inr operation \<Rightarrow>
             (case opName operation of
                None \<Rightarrow> (Some (Inl (Some noOperationIdMessage)), trace)
              | Some operationName \<Rightarrow>
                  if operationName = [] then (Some (Inl (Some noOperationIdMessage)), trace)
                  else (case pollLoop operationName operation (pollResults env) trace of
                          (None, trace') \<Rightarrow> (None, trace')
                        | (Some (Inl e), trace') \<Rightarrow> (Some (Inl e), trace')
                        | (Some (Inr finished), trace') \<Rightarrow> download key finished env trace')))"

text \<open>
  The outer \<^verbatim>\<open>catch\<close>: \<^verbatim>\<open>userMessage = error.message || "Erro desconhecido ..."\<close>,
  replaced when it includes \<^verbatim>\<open>'404'\<close> and \<^verbatim>\<open>'entity'\<close>, else when it includes
  \<^verbatim>\<open>'429'\<close>.
\<close>

definition userMessage :: "js_error \<Rightarrow> string" where
  "userMessage error =
     (let message = orElse error unknownErrorMessage
      in if includes_str message ''404'' \<and> includes_str message ''entity'' then notFoundMessage
         else if includes_str message ''429'' then quotaMessage
         else message)"

definition generateCleanVideo :: "string option \<Rightarrow> string \<Rightarrow> string \<Rightarrow> string \<Rightarrow> gen_env
     \<Rightarrow> gen_result \<times> api_call list" where
  "generateCleanVideo imageBase64 mime promptDescription ratio env =
     (if \<not> truthy (apiKey env) then (Thrown noApiKeyMessage, [])
      else (case tryBody imageBase64 mime promptDescription ratio (orElse (apiKey env) []) env of
              (None, trace) \<Rightarrow> (StillPolling, trace)
            | (Some (Inr url), trace) \<Rightarrow> (Returned url, trace)
            | (Some (Inl error), trace) \<Rightarrow> (Thrown (userMessage error), trace)))"

section \<open>The session controller (\<^verbatim>\<open>App\<close>)\<close>

datatype status = Idle | Analyzing | Generating | Completed | ErrorStatus

record processing_state =
  status :: status
  progress :: "nat option"
  message :: "string option"
  error :: "string option"

definition processingIdle :: processing_state where
  "processingIdle = \<lparr>status = Idle, progress = None, message = None, error = None\<rparr>"

text \<open>An uploaded \<^verbatim>\<open>File\<close>: its declared type and what extracting its frame does.\<close>

record upload =
  fileType :: string
  run :: extract_env

text \<open>
  The component's state variables, the value of the file input, and the object URLs that
  the component has created and nobody has revoked (the part of the browser's blob URL
  store that belongs to it).
\<close>

record app_state =
  videoFile :: "upload option"
  videoPreviewUrl :: "string option"
  prompt :: string
  processingState :: processing_state
  generatedVideoUrl :: "string option"
  extractedFrame :: "frame option"
  fileInputValue :: string
  objectURLs :: "string list"

definition initialApp :: app_state where
  "initialApp =
     \<lparr>videoFile = None, videoPreviewUrl = None, prompt = [], processingState = processingIdle,
      generatedVideoUrl = None, extractedFrame = None, fileInputValue = [], objectURLs = []\<rparr>"

text \<open>\<^verbatim>\<open>if (u) URL.revokeObjectURL(u)\<close>.\<close>

definition revokeIfSet :: "string option \<Rightarrow> app_state \<Rightarrow> app_state" where
  "revokeIfSet u s = (if truthy u then s\<lparr>objectURLs := removeAll (orElse u []) (objectURLs s)\<rparr> else s)"

text \<open>
  The cleanup of the mount effect. The effect has the dependency list \<^verbatim>\<open>[]\<close>, so its
  closure holds \<^verbatim>\<open>videoPreviewUrl\<close> and \<^verbatim>\<open>generatedVideoUrl\<close> of the first render.
\<close>

definition unmountCleanup :: "app_state \<Rightarrow> app_state" where
  "unmountCleanup s =
     revokeIfSet (generatedVideoUrl initialApp) (revokeIfSet (videoPreviewUrl initialApp) s)"

definition analyzingMessage :: string where
  "analyzingMessage =
     ''Analisando v'' @ [CHR 0xC3, CHR 0xAD] @ ''deo e extraindo frame de refer'' @ [CHR 0xC3, CHR 0xAA] @ ''ncia...''"

definition extractionFailedMessage :: string where
  "extractionFailedMessage =
     ''Falha ao processar o v'' @ [CHR 0xC3, CHR 0xAD] @ ''deo. Tente outro arquivo.''"

definition generatingMessage :: string where
  "generatingMessage =
     ''A IA est'' @ [CHR 0xC3, CHR 0xA1] @ '' reconstruindo o v'' @ [CHR 0xC3, CHR 0xAD] @ ''deo sem a marca d'' @ [CHR 0x27, CHR 0xC3, CHR 0xA1] @ ''gua...''"

definition generationErrorFallback :: string where
  "generationErrorFallback =
     ''Ocorreu um erro durante a gera'' @ [CHR 0xC3, CHR 0xA7, CHR 0xC3, CHR 0xA3] @ ''o do v'' @ [CHR 0xC3, CHR 0xAD] @ ''deo.''"

text \<open>
  \<^verbatim>\<open>handleFileChange\<close>, for a chosen file (if any) and the preview URL that
  \<^verbatim>\<open>URL.createObjectURL(file)\<close> returns. The extraction variant in use is a parameter.
  When the promise never settles the state stays \<open>Analyzing\<close>.
\<close>

definition handleFileChange ::
  "(extract_env \<Rightarrow> extract_state) \<Rightarrow> upload option \<Rightarrow> string \<Rightarrow> app_state \<Rightarrow> app_state" where
  "handleFileChange extractFirstFrame chosen url s =
     (case chosen of
        None \<Rightarrow> s
      | Some file \<Rightarrow>
          if fileType file \<noteq> ''video/mp4'' then s
          else let s1 = s\<lparr>videoFile := Some file, videoPreviewUrl := Some url,
                           objectURLs := objectURLs s @ [url], generatedVideoUrl := None,
                           processingState := \<lparr>status = Analyzing, progress = None,
                              message = Some analyzingMessage, error = None\<rparr>\<rparr>
               in (case promise (extractFirstFrame (run file)) of
                     None \<Rightarrow> s1
                   | Some (Resolved frameData) \<Rightarrow>
                       s1\<lparr>extractedFrame := Some frameData, processingState := processingIdle\<rparr>
                   | Some (Rejected err) \<Rightarrow>
                       s1\<lparr>processingState := \<lparr>status = ErrorStatus, progress = None,
                              message = None, error = Some extractionFailedMessage\<rparr>\<rparr>))"

text \<open>
  \<^verbatim>\<open>prompt.trim()\<close> is empty: the string consists of white space and line terminators
  only (in UTF-8: TAB, LF, VT, FF, CR, SP, U+00A0, U+1680, U+2000 to U+200A, U+2028, U+2029,
  U+202F, U+205F, U+3000, U+FEFF).
\<close>

definition whitespaceLength :: "string \<Rightarrow> nat" where
  "whitespaceLength s =
     (case s of
        [] \<Rightarrow> 0
      | a # r1 \<Rightarrow>
          if a \<in> set [CHR 0x09, CHR 0x0A, CHR 0x0B, CHR 0x0C, CHR 0x0D, CHR 0x20] then 1
          else (case r1 of
                  [] \<Rightarrow> 0
                | b # r2 \<Rightarrow>
                    if a = CHR 0xC2 \<and> b = CHR 0xA0 then 2
                    else (case r2 of
                            [] \<Rightarrow> 0
                          | c # r3 \<Rightarrow>
                              if [a, b, c] \<in> set
                                   ([[CHR 0xE1, CHR 0x9A, CHR 0x80], [CHR 0xE2, CHR 0x81, CHR 0x9F],
                                     [CHR 0xE3, CHR 0x80, CHR 0x80], [CHR 0xEF, CHR 0xBB, CHR 0xBF],
                                     [CHR 0xE2, CHR 0x80, CHR 0xA8], [CHR 0xE2, CHR 0x80, CHR 0xA9],
                                     [CHR 0xE2, CHR 0x80, CHR 0xAF]]
                                    @ map (\<lambda>x. [CHR 0xE2, CHR 0x80, x])
                                        [CHR 0x80, CHR 0x81, CHR 0x82, CHR 0x83, CHR 0x84, CHR 0x85,
                                         CHR 0x86, CHR 0x87, CHR 0x88, CHR 0x89, CHR 0x8A])
                              then 3 else 0)))"

function trimsToEmpty :: "string \<Rightarrow> bool" where
  "trimsToEmpty s =
     (if s = [] then True
      else if whitespaceLength s = 0 then False
      else trimsToEmpty (drop (whitespaceLength s) s))"
  by pat_completeness auto
termination
  by (relation "measure length") auto

declare trimsToEmpty.simps [simp del]

text \<open>
  \<^verbatim>\<open>handleProcess\<close>, given what the generation service does. It returns the new state
  and the calls made to the service. While the operation is still being polled the state
  stays \<open>Generating\<close>.
\<close>

definition handleProcess :: "gen_env \<Rightarrow> app_state \<Rightarrow> app_state \<times> api_call list" where
  "handleProcess env s =
     (case extractedFrame s of
        None \<Rightarrow> (s, [])
      | Some fr \<Rightarrow>
          if trimsToEmpty (prompt s) then (s, [])
          else let s1 = s\<lparr>processingState := \<lparr>status = Generating, progress = None,
                              message = Some generatingMessage, error = None\<rparr>\<rparr>;
                   ratio = (if width fr \<ge> height fr then ''16:9'' else ''9:16'')
               in (case generateCleanVideo (base64 fr) (mimeType fr) (prompt s) ratio env of
                     (Returned url, trace) \<Rightarrow>
                       (s1\<lparr>generatedVideoUrl := Some url, objectURLs := objectURLs s1 @ [url],
                           processingState := \<lparr>status = Completed, progress = None,
                              message = None, error = None\<rparr>\<rparr>, trace)
                   | (Thrown m, trace) \<Rightarrow>
                       (s1\<lparr>processingState := \<lparr>status = ErrorStatus, progress = None,
                              message = None, error = Some (orElse (Some m) generationErrorFallback)\<rparr>\<rparr>,
                        trace)
                   | (StillPolling, trace) \<Rightarrow> (s1, trace)))"

text \<open>\<^verbatim>\<open>handleReset\<close>: six state setters and the file input; no call of \<^verbatim>\<open>URL.revokeObjectURL\<close>.\<close>

definition handleReset :: "app_state \<Rightarrow> app_state" where
  "handleReset s =
     s\<lparr>videoFile := None, videoPreviewUrl := None, generatedVideoUrl := None,
       extractedFrame := None, prompt := [], processingState := processingIdle,
       fileInputValue := []\<rparr>"

definition setPrompt :: "string \<Rightarrow> app_state \<Rightarrow> app_state" where
  "setPrompt text s = s\<lparr>prompt := text\<rparr>"

section \<open>Predicates and sample data used in the proofs\<close>

text \<open>
  The two kinds of state a guarded run passes through after its synchronous part: still
  waiting with every handle held, or settled with every handle released.
\<close>

definition active :: "extract_state \<Rightarrow> bool" where
  "active st \<longleftrightarrow> promise st = None \<and> timerArmed st \<and> handlersAttached st \<and> urlLive st
     \<and> videoCreated st \<and> \<not> videoRemoved st"

definition finished :: "extract_state \<Rightarrow> bool" where
  "finished st \<longleftrightarrow> promise st \<noteq> None \<and> released st"

text \<open>
  A frame as an \<^verbatim>\<open>onseeked\<close> handler builds it: JPEG mime type, the resized dimensions,
  and the payload of a data URL that the encoder returned for quality \<^verbatim>\<open>0.85\<close>.
\<close>

definition encoded :: "extract_env \<Rightarrow> frame \<Rightarrow> bool" where
  "encoded env fr \<longleftrightarrow>
     mimeType fr = ''image/jpeg'' \<and>
     (width fr, height fr) = resizeDimensions (videoWidth env) (videoHeight env) \<and>
     (\<exists>t d. encode env ''image/jpeg'' jpegQuality t (width fr) (height fr) = Some d \<and>
            base64 fr = splitSecond d)"




text \<open>
  A browser run for a file of the given dimensions and duration: every call succeeds and
  the encoder answers as browsers do, \<^verbatim>\<open>"data:,"\<close> for an empty canvas and a JPEG data
  URL otherwise.
\<close>

definition sampleEncoder :: "string \<Rightarrow> real \<Rightarrow> real \<Rightarrow> int \<Rightarrow> int \<Rightarrow> string option" where
  "sampleEncoder mime quality t w h =
     Some (if w = 0 \<or> h = 0 then ''data:,'' else ''data:image/jpeg;base64,AAAA'')"

definition sampleRun :: "32 word \<Rightarrow> 32 word \<Rightarrow> jsnum \<Rightarrow> (nat \<times> media_event) list \<Rightarrow> extract_env" where
  "sampleRun vw vh d evs =
     \<lparr>hasWindowDocument = True, createObjectURLThrows = False, events = evs, duration = d,
      videoWidth = vw, videoHeight = vh, getContext2d = True, encode = sampleEncoder\<rparr>"

definition sampleFrame :: "int \<Rightarrow> int \<Rightarrow> frame" where
  "sampleFrame w h = \<lparr>base64 = Some ''AAAA'', mimeType = ''image/jpeg'', width = w, height = h\<rparr>"

definition sampleUpload :: "32 word \<Rightarrow> 32 word \<Rightarrow> upload" where
  "sampleUpload vw vh =
     \<lparr>fileType = ''video/mp4'', run = sampleRun vw vh (Num 5) [(40, LoadedData), (90, Seeked)]\<rparr>"

text \<open>A service with a configured key whose download succeeds.\<close>

definition pendingOperation :: "string option \<Rightarrow> operation" where
  "pendingOperation n = \<lparr>opName = n, opDone = False, videoUri = None, opErrorMessage = None\<rparr>"

definition finishedOperation :: "string option \<Rightarrow> string \<Rightarrow> operation" where
  "finishedOperation n uri = \<lparr>opName = n, opDone = True, videoUri = Some uri, opErrorMessage = None\<rparr>"

definition sampleService :: "(js_error + operation) \<Rightarrow> (js_error + operation) list \<Rightarrow> gen_env" where
  "sampleService submitted polls =
     \<lparr>apiKey = Some ''test-key'', generateVideosResult = submitted, pollResults = polls,
      fetchResult = Inr (True, ''200'', ''OK''), blobResult = Inr ''blob:generated''\<rparr>"

definition finishingService :: gen_env where
  "finishingService =
     sampleService (Inr (pendingOperation (Some ''operations/abc'')))
       [Inr (finishedOperation (Some ''operations/abc'') ''https://video.example/v1?alt=media'')]"

text \<open>The session after an upload, a description and a completed generation.\<close>

definition completedSession :: app_state where
  "completedSession =
     fst (handleProcess finishingService
            (setPrompt ''a red car''
               (handleFileChange extractFirstFrame_guarded (Some (sampleUpload 4000 2000))
                  ''blob:preview'' initialApp)))"

section \<open>Properties of the rounding\<close>

subsection \<open>The binary exponent and the relative error\<close>

lemma binexp_ge1:
  assumes "1 \<le> x"
  shows "2 powi (binexp x) \<le> x \<and> x < 2 powi (binexp x + 1)"
proof -
  define n where "n = nat \<lfloor>x\<rfloor>"
  define k where "k = floorlog 2 n"
  have n1: "1 \<le> n" using assms by (simp add: n_def le_nat_floor)
  have rn: "real n = of_int \<lfloor>x\<rfloor>" using assms by (simp add: n_def)
  have nx: "real n \<le> x" "x < real n + 1" unfolding rn by linarith+
  have fb: "2 ^ (k - 1) \<le> n" "n < 2 ^ k"
    using floorlog_bounds[of n 2] n1 by (simp_all add: k_def)
  have k1: "1 \<le> k" using fb(2) n1 by (cases k) auto
  have be: "binexp x = int k - 1" using assms by (simp add: binexp_def n_def k_def)
  have lo: "(2::real) ^ (k - 1) \<le> x"
  proof -
    have "(2::real) ^ (k - 1) = real (2 ^ (k - 1))" by simp
    also have "\<dots> \<le> real n" using fb(1) by (simp only: of_nat_le_iff)
    finally show ?thesis using nx(1) by linarith
  qed
  have hi: "x < (2::real) ^ k"
  proof -
    have "n + 1 \<le> 2 ^ k" using fb(2) by simp
    then have "real (n + 1) \<le> real (2 ^ k)" by (simp only: of_nat_le_iff)
    then have "real n + 1 \<le> 2 ^ k" by simp
    then show ?thesis using nx(2) by linarith
  qed
  have p1: "(2::real) powi (int k - 1) = 2 ^ (k - 1)"
    using k1 by (simp add: power_int_def nat_diff_distrib')
  have p2: "(2::real) powi (int k - 1 + 1) = 2 ^ k"
    by (simp add: power_int_def)
  show ?thesis using lo hi by (simp only: be p1 p2)
qed

lemma binexp_lt1:
  assumes "0 < x" "x < 1"
  shows "2 powi (binexp x) \<le> x \<and> x < 2 powi (binexp x + 1)"
proof -
  define c where "c = \<lceil>1 / x\<rceil>"
  define n where "n = nat (c - 1)"
  define k where "k = floorlog 2 n"
  have y1: "1 < 1 / x" using assms by simp
  have c2: "2 \<le> c" using y1 unfolding c_def by linarith
  have n1: "1 \<le> n" using c2 by (simp add: n_def)
  have rn: "real n = of_int c - 1" using c2 by (simp add: n_def)
  have cy: "of_int c - 1 < 1 / x" "1 / x \<le> of_int c" unfolding c_def by linarith+
  have fb: "2 ^ (k - 1) \<le> n" "n < 2 ^ k"
    using floorlog_bounds[of n 2] n1 by (simp_all add: k_def)
  have k1: "1 \<le> k" using fb(2) n1 by (cases k) auto
  have be: "binexp x = - int k" using assms by (simp add: binexp_def n_def k_def c_def)
  have hi': "1 / x \<le> (2::real) ^ k"
  proof -
    have "n + 1 \<le> 2 ^ k" using fb(2) by simp
    then have "real (n + 1) \<le> real (2 ^ k)" by (simp only: of_nat_le_iff)
    then have "real n + 1 \<le> 2 ^ k" by simp
    then show ?thesis using cy(2) rn by linarith
  qed
  have lo': "(2::real) ^ (k - 1) < 1 / x"
  proof -
    have "(2::real) ^ (k - 1) = real (2 ^ (k - 1))" by simp
    also have "\<dots> \<le> real n" using fb(1) by (simp only: of_nat_le_iff)
    finally show ?thesis using cy(1) rn by linarith
  qed
  have p1: "(2::real) powi (- int k) = 1 / 2 ^ k"
    by (simp add: power_int_def field_simps)
  have p2: "(2::real) powi (- int k + 1) = 1 / 2 ^ (k - 1)"
    using k1 by (cases k) (simp_all add: power_int_def field_simps)
  have a: "1 / 2 ^ k \<le> x" using hi' assms(1) by (simp add: field_simps)
  have b: "x < 1 / 2 ^ (k - 1)" using lo' assms(1) by (simp add: field_simps)
  show ?thesis using a b by (simp only: be p1 p2)
qed

lemma binexp_bounds:
  "0 < x \<Longrightarrow> 2 powi (binexp x) \<le> x \<and> x < 2 powi (binexp x + 1)"
  using binexp_ge1[of x] binexp_lt1[of x] by (cases "1 \<le> x") auto

lemma roundTiesToEven_error: "\<bar>of_int (roundTiesToEven x) - x\<bar> \<le> 1 / 2"
  unfolding roundTiesToEven_def Let_def by (auto simp: abs_if) linarith+

lemma toDouble_error:
  assumes "2 powi (- 1022) \<le> x"
  shows "\<bar>toDouble x - x\<bar> \<le> x / 2 ^ 53"
proof -
  have x0: "0 < x" using assms by (smt (verit) zero_less_power_int)
  define e where "e = binexp x"
  define ulp :: real where "ulp = 2 powi (e - 52)"
  have bb: "2 powi e \<le> x" "x < 2 powi (e + 1)" using binexp_bounds[OF x0] by (simp_all add: e_def)
  have lt: "(2::real) powi (- 1022) < 2 powi (e + 1)" using assms bb(2) by linarith
  have "- 1022 < e + 1"
  proof (rule ccontr)
    assume "\<not> - 1022 < e + 1"
    then have "e + 1 \<le> - 1022" by simp
    then have "(2::real) powi (e + 1) \<le> 2 powi (- 1022)" by (intro power_int_increasing) simp_all
    with lt show False by linarith
  qed
  then have me: "max e (- 1022) = e" by simp
  have up: "0 < ulp" by (simp add: ulp_def)
  have td: "toDouble x = of_int (roundTiesToEven (x / ulp)) * ulp"
    using x0 me by (simp add: toDouble_def Let_def e_def[symmetric] ulp_def)
  have "\<bar>toDouble x - x\<bar> = \<bar>of_int (roundTiesToEven (x / ulp)) - x / ulp\<bar> * ulp"
  proof -
    have "of_int (roundTiesToEven (x / ulp)) * ulp - x = (of_int (roundTiesToEven (x / ulp)) - x / ulp) * ulp"
      using up by (simp add: left_diff_distrib)
    then show ?thesis using up by (simp only: td abs_mult abs_of_pos)
  qed
  also have "\<dots> \<le> 1 / 2 * ulp"
    using roundTiesToEven_error[of "x / ulp"] up by (intro mult_right_mono) simp_all
  also have "\<dots> = 2 powi e / 2 ^ 53"
    by (simp add: ulp_def power_int_diff)
  also have "\<dots> \<le> x / 2 ^ 53" using bb(1) by (simp add: divide_right_mono)
  finally show ?thesis .
qed


subsection \<open>A dimension scaled by \<open>1024 / max\<close>\<close>

text \<open>
  For dimensions below \<open>2 ^ 32\<close> the two roundings move the product by less than
  \<open>2 ^ - 41\<close>, while the exact value \<open>1024 * w / m\<close> is at least \<open>1 / m > 2 ^ - 32\<close>
  away from every integer it does not equal. So the floor is the exact floor, or one less
  when the exact value is an integer.
\<close>

lemma int_above_ratio:
  fixes k a m :: int
  assumes "0 < m" "real_of_int a / of_int m < of_int k"
  shows "real_of_int a / of_int m + 1 / of_int m \<le> of_int k"
proof -
  have "real_of_int a < of_int k * of_int m" using assms by (simp add: field_simps)
  then have "real_of_int a < of_int (k * m)" by simp
  then have "a < k * m" by (simp only: of_int_less_iff)
  then have "a + 1 \<le> k * m" by simp
  then have "real_of_int (a + 1) \<le> of_int (k * m)" by (simp only: of_int_le_iff)
  then have "real_of_int a + 1 \<le> of_int k * of_int m" by simp
  then show ?thesis using assms(1) by (simp add: field_simps)
qed

lemma int_below_ratio:
  fixes k a m :: int
  assumes "0 < m" "of_int k < real_of_int a / of_int m"
  shows "of_int k \<le> real_of_int a / of_int m - 1 / of_int m"
proof -
  have "of_int k * of_int m < real_of_int a" using assms by (simp add: field_simps)
  then have "real_of_int (k * m) < of_int a" by simp
  then have "k * m < a" by (simp only: of_int_less_iff)
  then have "k * m \<le> a - 1" by simp
  then have "real_of_int (k * m) \<le> of_int (a - 1)" by (simp only: of_int_le_iff)
  then have "of_int k * of_int m \<le> real_of_int a - 1" by simp
  then show ?thesis using assms(1) by (simp add: field_simps)
qed

lemma normal_range:
  fixes x :: real
  assumes "1 / 2 ^ 23 \<le> x"
  shows "2 powi (- 1022) \<le> x"
proof -
  have "(2::real) powi (- 1022) \<le> 2 powi (- 23)" by (rule power_int_increasing) simp_all
  also have "(2::real) powi (- 23) = 1 / 2 ^ 23" by (simp add: power_int_def field_simps)
  finally show ?thesis using assms by (rule order_trans)
qed

lemma scaled_error:
  fixes w m :: int
  assumes m: "1024 < m" "m < 2 ^ 32" and w: "0 < w" "w \<le> m"
  shows "\<bar>toDouble (of_int w * toDouble (1024 / of_int m)) - 1024 * of_int w / of_int m\<bar> < 1 / 2 ^ 41"
proof -
  define W :: real where "W = of_int w"
  define M :: real where "M = of_int m"
  define q where "q = 1024 / M"
  define s where "s = toDouble q"
  define p where "p = W * s"
  define E where "E = W * q"
  define u :: real where "u = 1 / 2 ^ 53"
  have "real_of_int 1024 < of_int m" "real_of_int m < of_int (2 ^ 32)"
    using m by (simp_all only: of_int_less_iff)
  then have M0: "1024 < M" "M < 2 ^ 32" unfolding M_def by simp_all
  have W0: "1 \<le> W" "W \<le> M" using w unfolding W_def M_def by simp_all
  have q_lo: "1 / 2 ^ 22 < q" using M0 unfolding q_def by (simp add: field_simps)
  have q_pos: "0 < q" using M0 unfolding q_def by simp
  have "1 / 2 ^ 23 \<le> q" using q_lo by simp
  from toDouble_error[OF normal_range[OF this]]
  have es: "\<bar>s - q\<bar> \<le> q * u" by (simp add: s_def u_def)
  have E_le: "E \<le> 1024" using W0 M0 unfolding E_def q_def by (simp add: field_simps)
  have E_pos: "0 < E" using W0 q_pos unfolding E_def by simp
  have pE: "\<bar>p - E\<bar> \<le> E * u"
  proof -
    have "\<bar>p - E\<bar> = W * \<bar>s - q\<bar>"
      using W0 by (simp add: p_def E_def right_diff_distrib[symmetric] abs_mult)
    also have "\<dots> \<le> W * (q * u)" using es W0 by (intro mult_left_mono) simp_all
    finally show ?thesis by (simp add: E_def mult.assoc)
  qed
  have u_small: "u \<le> 1 / 2" unfolding u_def by simp
  have s_lo: "q / 2 \<le> s"
  proof -
    have "q - q * u \<le> s" using es by linarith
    moreover have "q * u \<le> q * (1 / 2)" using u_small q_pos by (intro mult_left_mono) simp_all
    ultimately show ?thesis by simp
  qed
  have p_lo: "1 / 2 ^ 23 \<le> p"
  proof -
    have "1 / 2 ^ 23 \<le> q / 2" using q_lo by simp
    also have "\<dots> \<le> s" by (rule s_lo)
    also have "\<dots> \<le> W * s" using W0 s_lo q_pos by (simp add: mult_le_cancel_right1)
    finally show ?thesis by (simp add: p_def)
  qed
  from toDouble_error[OF normal_range[OF p_lo]]
  have er: "\<bar>toDouble p - p\<bar> \<le> p * u" by (simp add: u_def)
  have p_hi: "p \<le> E + E * u" using pE by linarith
  have "\<bar>toDouble p - E\<bar> \<le> p * u + E * u" using er pE by linarith
  also have "\<dots> \<le> (E + E * u) * u + E * u"
    using p_hi by (simp add: u_def)
  also have "\<dots> = E * (u * (2 + u))" by (simp add: algebra_simps)
  also have "\<dots> \<le> 1024 * (u * (2 + u))"
    using E_le by (intro mult_right_mono) (simp_all add: u_def)
  also have "\<dots> < 1 / 2 ^ 41" by (simp add: u_def)
  finally have "\<bar>toDouble p - E\<bar> < 1 / 2 ^ 41" .
  moreover have "E = 1024 * of_int w / of_int m" by (simp add: E_def q_def W_def M_def)
  ultimately show ?thesis by (simp add: p_def s_def q_def W_def M_def)
qed

lemma scaled_floor:
  fixes w m :: int
  assumes m: "1024 < m" "m < 2 ^ 32" and w: "0 < w" "w \<le> m"
  defines "k \<equiv> \<lfloor>toDouble (of_int w * toDouble (1024 / of_int m))\<rfloor>"
  shows "1024 * real_of_int w / of_int m - 1 \<le> of_int k" and "of_int k \<le> 1024 * real_of_int w / of_int m"
proof -
  define r where "r = toDouble (of_int w * toDouble (1024 / of_int m))"
  define E :: real where "E = of_int (1024 * w) / of_int m"
  have E': "E = 1024 * of_int w / of_int m" by (simp add: E_def)
  have err: "\<bar>r - E\<bar> < 1 / 2 ^ 41" using scaled_error[OF m w] by (simp add: r_def E')
  have m0: "0 < m" using m by simp
  have "real_of_int m < of_int (2 ^ 32)" using m(2) by (simp only: of_int_less_iff)
  then have "real_of_int m < 2 ^ 32" by simp
  moreover have "0 < real_of_int m" using m0 by simp
  ultimately have gap: "1 / 2 ^ 32 < 1 / real_of_int m"
    by (simp add: field_simps)
  have kr: "of_int k \<le> r" "r < of_int k + 1" unfolding k_def r_def by linarith+
  have up: "of_int k \<le> E"
  proof (rule ccontr)
    assume "\<not> of_int k \<le> E"
    then have "E < of_int k" by simp
    then have "E + 1 / of_int m \<le> of_int k" unfolding E_def by (rule int_above_ratio[OF m0])
    then show False using kr err gap by (simp add: abs_if split: if_splits)
  qed
  have lo: "E - 1 \<le> of_int k"
  proof (rule ccontr)
    assume "\<not> E - 1 \<le> of_int k"
    then have "real_of_int (k + 1) < E" by simp
    then have "real_of_int (k + 1) \<le> E - 1 / of_int m" unfolding E_def by (rule int_below_ratio[OF m0])
    then show False using kr err gap by (simp add: abs_if split: if_splits)
  qed
  show "1024 * real_of_int w / of_int m - 1 \<le> of_int k" using lo by (simp add: E')
  show "of_int k \<le> 1024 * real_of_int w / of_int m" using up by (simp add: E')
qed

subsection \<open>Rounding is monotone\<close>

lemma roundTiesToEven_of_int [simp]: "roundTiesToEven (of_int n) = n"
  by (simp add: roundTiesToEven_def)

lemma roundTiesToEven_range:
  "\<lfloor>x\<rfloor> \<le> roundTiesToEven x \<and> roundTiesToEven x \<le> \<lfloor>x\<rfloor> + 1"
  by (simp add: roundTiesToEven_def Let_def)

lemma roundTiesToEven_mono:
  assumes "x \<le> y"
  shows "roundTiesToEven x \<le> roundTiesToEven y"
proof (cases "\<lfloor>x\<rfloor> = \<lfloor>y\<rfloor>")
  case True
  have "x - of_int \<lfloor>x\<rfloor> \<le> y - of_int \<lfloor>x\<rfloor>" using assms by simp
  then show ?thesis unfolding roundTiesToEven_def Let_def True[symmetric] by auto
next
  case False
  then have "\<lfloor>x\<rfloor> < \<lfloor>y\<rfloor>" using floor_mono[OF assms] by simp
  then show ?thesis using roundTiesToEven_range[of x] roundTiesToEven_range[of y] by linarith
qed

lemma binexp_mono:
  assumes "0 < x" "x \<le> y"
  shows "binexp x \<le> binexp y"
proof (rule ccontr)
  assume "\<not> binexp x \<le> binexp y"
  then have "binexp y + 1 \<le> binexp x" by simp
  then have "(2::real) powi (binexp y + 1) \<le> 2 powi (binexp x)"
    by (intro power_int_increasing) simp_all
  moreover have "2 powi (binexp x) \<le> x" using binexp_bounds[OF assms(1)] by simp
  moreover have "y < 2 powi (binexp y + 1)" using binexp_bounds[of y] assms by simp
  ultimately show False using assms(2) by linarith
qed

lemma toDouble_pos_eq:
  "0 < x \<Longrightarrow> toDouble x =
     of_int (roundTiesToEven (x / 2 powi (max (binexp x) (- 1022) - 52))) * 2 powi (max (binexp x) (- 1022) - 52)"
  by (simp add: toDouble_def Let_def)

lemma toDouble_mono_pos:
  assumes "0 < x" "x \<le> y"
  shows "toDouble x \<le> toDouble y"
proof -
  define ex where "ex = max (binexp x) (- 1022)"
  define ey where "ey = max (binexp y) (- 1022)"
  have y0: "0 < y" using assms by simp
  have le: "ex \<le> ey" using binexp_mono[OF assms] by (simp add: ex_def ey_def)
  have tx: "toDouble x = of_int (roundTiesToEven (x / 2 powi (ex - 52))) * 2 powi (ex - 52)"
    using toDouble_pos_eq[OF assms(1)] by (simp add: ex_def)
  have ty: "toDouble y = of_int (roundTiesToEven (y / 2 powi (ey - 52))) * 2 powi (ey - 52)"
    using toDouble_pos_eq[OF y0] by (simp add: ey_def)
  show ?thesis
  proof (cases "ex = ey")
    case True
    have "x / 2 powi (ey - 52) \<le> y / 2 powi (ey - 52)"
      using assms(2) by (simp add: divide_right_mono)
    then have "roundTiesToEven (x / 2 powi (ey - 52)) \<le> roundTiesToEven (y / 2 powi (ey - 52))"
      by (rule roundTiesToEven_mono)
    then have "real_of_int (roundTiesToEven (x / 2 powi (ey - 52))) \<le> of_int (roundTiesToEven (y / 2 powi (ey - 52)))"
      by (simp only: of_int_le_iff)
    then show ?thesis unfolding tx ty True by (intro mult_right_mono) simp_all
  next
    case False
    then have lt: "ex < ey" using le by simp
    then have eyb: "ey = binexp y" by (simp add: ey_def ex_def max_def split: if_splits)
    have xhi: "x < 2 powi (ex + 1)"
    proof -
      have "x < 2 powi (binexp x + 1)" using binexp_bounds[OF assms(1)] by simp
      also have "\<dots> \<le> 2 powi (ex + 1)" by (intro power_int_increasing) (simp_all add: ex_def)
      finally show ?thesis .
    qed
    have "x / 2 powi (ex - 52) \<le> of_int (2 ^ 53)"
    proof -
      have "(2::real) powi (ex + 1) = 2 powi (ex - 52) * 2 ^ 53"
        by (simp add: power_int_diff power_int_add)
      then have "x \<le> 2 powi (ex - 52) * 2 ^ 53" using xhi by simp
      then show ?thesis by (simp add: field_simps)
    qed
    from roundTiesToEven_mono[OF this]
    have "roundTiesToEven (x / 2 powi (ex - 52)) \<le> 2 ^ 53" by (simp only: roundTiesToEven_of_int)
    then have "real_of_int (roundTiesToEven (x / 2 powi (ex - 52))) \<le> of_int (2 ^ 53)"
      by (simp only: of_int_le_iff)
    then have "toDouble x \<le> 2 ^ 53 * 2 powi (ex - 52)"
      unfolding tx by (intro mult_right_mono) simp_all
    also have "\<dots> = 2 powi (ex + 1)" by (simp add: power_int_diff power_int_add)
    also have "\<dots> \<le> 2 powi ey" using lt by (intro power_int_increasing) simp_all
    finally have a: "toDouble x \<le> 2 powi ey" .
    have "of_int (2 ^ 52) \<le> y / 2 powi (ey - 52)"
    proof -
      have "2 powi ey \<le> y" using binexp_bounds[OF y0] eyb by simp
      moreover have "(2::real) powi ey = 2 powi (ey - 52) * 2 ^ 52"
        by (simp add: power_int_diff)
      ultimately show ?thesis by (simp add: field_simps)
    qed
    from roundTiesToEven_mono[OF this]
    have "2 ^ 52 \<le> roundTiesToEven (y / 2 powi (ey - 52))" by (simp only: roundTiesToEven_of_int)
    then have "real_of_int (2 ^ 52) \<le> of_int (roundTiesToEven (y / 2 powi (ey - 52)))"
      by (simp only: of_int_le_iff)
    then have "2 ^ 52 * 2 powi (ey - 52) \<le> toDouble y"
      unfolding ty by (intro mult_right_mono) simp_all
    moreover have "(2::real) ^ 52 * 2 powi (ey - 52) = 2 powi ey" by (simp add: power_int_diff)
    ultimately show ?thesis using a by linarith
  qed
qed

section \<open>Properties of frame extraction\<close>

subsection \<open>The guarded run settles and releases its handles\<close>

lemma settle_cleanup_finished: "videoCreated st \<Longrightarrow> finished (settle out (cleanup st))"
  by (simp add: finished_def released_def cleanup_def settle_def)


lemma dispatch_guarded_finished: "finished st \<Longrightarrow> dispatch_guarded env ev st = st"
  by (simp add: dispatch_guarded_def finished_def released_def)


lemma deliver_guarded_finished: "finished st \<Longrightarrow> deliver_guarded env evs st = st"
  by (induction evs arbitrary: st) (auto simp: dispatch_guarded_finished)


lemma timerFires_finished: "active st \<or> finished st \<Longrightarrow> finished (timerFires st)"
proof (cases "timerArmed st")
  case True
  assume "active st \<or> finished st"
  with True have "videoCreated st" by (auto simp: active_def finished_def released_def)
  with True show ?thesis by (simp add: timerFires_def settle_cleanup_finished)
next
  case False
  assume "active st \<or> finished st"
  with False have "finished st" by (auto simp: active_def)
  with False show ?thesis by (simp add: timerFires_def)
qed


text \<open>While only \<open>LoadedData\<close> events arrive, the guarded run keeps waiting.\<close>

lemma deliver_guarded_only_loaded:
  "active st \<Longrightarrow> \<forall>e \<in> set evs. snd e = LoadedData \<Longrightarrow> active (deliver_guarded env evs st)"
proof (induction evs arbitrary: st)
  case Nil
  then show ?case by simp
next
  case (Cons e evs)
  obtain t ev where e: "e = (t, ev)" by (cases e)
  have "active (dispatch_guarded env LoadedData st)"
    using Cons.prems(1) by (simp add: dispatch_guarded_def active_def)
  then show ?case using Cons e by simp
qed

lemma guarded_timeout:
  assumes "hasWindowDocument env" "\<not> createObjectURLThrows env"
    and "\<forall>e \<in> set (events env). fst e < 15000 \<longrightarrow> snd e = LoadedData"
  shows "promise (extractFirstFrame_guarded env) = Some (Rejected TimeoutExceeded)"
proof -
  define st2 where "st2 = initialState\<lparr>videoCreated := True, timerArmed := True,
     urlLive := True, handlersAttached := True\<rparr>"
  define st3 where "st3 = deliver_guarded env (takeWhile beforeDeadline (events env)) st2"
  have a: "active st2" by (simp add: st2_def active_def initialState_def)
  have "\<forall>e \<in> set (takeWhile beforeDeadline (events env)). snd e = LoadedData"
  proof
    fix e assume "e \<in> set (takeWhile beforeDeadline (events env))"
    then have "e \<in> set (events env)" "beforeDeadline e" by (auto dest: set_takeWhileD)
    then show "snd e = LoadedData" using assms(3) by (simp add: beforeDeadline_def)
  qed
  then have a3: "active st3" unfolding st3_def by (rule deliver_guarded_only_loaded[OF a])
  then have p: "promise (timerFires st3) = Some (Rejected TimeoutExceeded)"
    by (simp add: timerFires_def settle_def cleanup_def active_def)
  have "finished (timerFires st3)" using a3 by (simp add: timerFires_finished)
  then have "extractFirstFrame_guarded env = timerFires st3"
    using assms(1,2) by (simp add: extractFirstFrame_guarded_def Let_def st2_def st3_def deliver_guarded_finished)
  then show ?thesis using p by simp
qed

subsection \<open>Where a resolved frame comes from\<close>

lemma promise_settle:
  "promise (settle out st) = Some o' \<Longrightarrow> promise st = Some o' \<or> (promise st = None \<and> out = o')"
  by (auto simp: settle_def split: if_splits)

lemma promise_cleanup [simp]: "promise (cleanup st) = promise st"
  by (simp add: cleanup_def)

lemma onseeked_guarded_resolved:
  assumes "promise (onseeked_guarded env st) = Some (Resolved fr)"
  shows "promise st = Some (Resolved fr) \<or>
         (encoded env fr \<and> uint (videoWidth env) \<noteq> 0 \<and> uint (videoHeight env) \<noteq> 0)"
proof (cases "promise st = None")
  case False
  then show ?thesis using assms
    by (simp add: onseeked_guarded_def settle_def split: if_splits prod.splits option.splits)
next
  case True
  obtain w h where wh: "resizeDimensions (videoWidth env) (videoHeight env) = (w, h)"
    by (cases "resizeDimensions (videoWidth env) (videoHeight env)")
  from assms True wh have nz: "uint (videoWidth env) \<noteq> 0 \<and> uint (videoHeight env) \<noteq> 0"
    by (auto simp: onseeked_guarded_def settle_def split: if_splits)
  from assms True wh nz obtain d where
    d: "encode env ''image/jpeg'' jpegQuality (currentTime st) w h = Some d"
    and fr: "fr = \<lparr>base64 = splitSecond d, mimeType = ''image/jpeg'', width = w, height = h\<rparr>"
    by (auto simp: onseeked_guarded_def settle_def split: if_splits option.splits)
  have "encoded env fr" unfolding encoded_def using d wh by (auto simp: fr)
  then show ?thesis using nz by simp
qed

lemma dispatch_guarded_resolved:
  assumes "promise (dispatch_guarded env ev st) = Some (Resolved fr)"
  shows "promise st = Some (Resolved fr) \<or>
         (encoded env fr \<and> uint (videoWidth env) \<noteq> 0 \<and> uint (videoHeight env) \<noteq> 0)"
proof (cases "handlersAttached st")
  case False
  then show ?thesis using assms by (simp add: dispatch_guarded_def)
next
  case True
  show ?thesis
  proof (cases ev)
    case LoadedData
    then show ?thesis using assms True by (simp add: dispatch_guarded_def)
  next
    case Seeked
    then show ?thesis using assms True onseeked_guarded_resolved[of env st fr]
      by (simp add: dispatch_guarded_def)
  next
    case MediaError
    then show ?thesis using assms True by (auto simp: dispatch_guarded_def dest!: promise_settle)
  qed
qed

lemma deliver_guarded_resolved:
  "promise (deliver_guarded env evs st) = Some (Resolved fr) \<Longrightarrow>
   promise st = Some (Resolved fr) \<or>
   (encoded env fr \<and> uint (videoWidth env) \<noteq> 0 \<and> uint (videoHeight env) \<noteq> 0)"
proof (induction evs arbitrary: st)
  case Nil
  then show ?case by simp
next
  case (Cons e evs)
  obtain t ev where e: "e = (t, ev)" by (cases e)
  from Cons.prems e have "promise (deliver_guarded env evs (dispatch_guarded env ev st)) = Some (Resolved fr)"
    by simp
  from Cons.IH[OF this] show ?case using dispatch_guarded_resolved[of env ev st fr] by blast
qed

lemma timerFires_resolved:
  "promise (timerFires st) = Some (Resolved fr) \<Longrightarrow> promise st = Some (Resolved fr)"
  by (auto simp: timerFires_def split: if_splits dest!: promise_settle)

lemma guarded_resolved:
  assumes "promise (extractFirstFrame_guarded env) = Some (Resolved fr)"
  shows "encoded env fr \<and> uint (videoWidth env) \<noteq> 0 \<and> uint (videoHeight env) \<noteq> 0"
proof (cases "hasWindowDocument env \<and> \<not> createObjectURLThrows env")
  case False
  then show ?thesis using assms
    by (auto simp: extractFirstFrame_guarded_def Let_def settle_def initialState_def cleanup_def
        split: if_splits)
next
  case True
  define st2 where "st2 = initialState\<lparr>videoCreated := True, timerArmed := True,
     urlLive := True, handlersAttached := True\<rparr>"
  have p2: "promise st2 = None" by (simp add: st2_def initialState_def)
  have "promise (deliver_guarded env (dropWhile beforeDeadline (events env))
          (timerFires (deliver_guarded env (takeWhile beforeDeadline (events env)) st2))) = Some (Resolved fr)"
    using assms True by (simp add: extractFirstFrame_guarded_def Let_def st2_def)
  from deliver_guarded_resolved[OF this] show ?thesis
  proof
    assume "promise (timerFires (deliver_guarded env (takeWhile beforeDeadline (events env)) st2)) = Some (Resolved fr)"
    then have "promise (deliver_guarded env (takeWhile beforeDeadline (events env)) st2) = Some (Resolved fr)"
      by (rule timerFires_resolved)
    from deliver_guarded_resolved[OF this] show ?thesis using p2 by auto
  qed
qed

text \<open>The same for the bare variant, which has no zero-dimension check.\<close>

lemma onseeked_bare_resolved:
  assumes "promise (onseeked_bare env st) = Some (Resolved fr)"
  shows "promise st = Some (Resolved fr) \<or> encoded env fr"
proof (cases "promise st = None")
  case False
  then show ?thesis using assms
    by (simp add: onseeked_bare_def settle_def split: if_splits prod.splits option.splits)
next
  case True
  obtain w h where wh: "resizeDimensions (videoWidth env) (videoHeight env) = (w, h)"
    by (cases "resizeDimensions (videoWidth env) (videoHeight env)")
  from assms True wh obtain d where
    d: "encode env ''image/jpeg'' jpegQuality (currentTime st) w h = Some d"
    and fr: "fr = \<lparr>base64 = splitSecond d, mimeType = ''image/jpeg'', width = w, height = h\<rparr>"
    by (auto simp: onseeked_bare_def settle_def split: if_splits option.splits)
  have "encoded env fr" unfolding encoded_def using d wh by (auto simp: fr)
  then show ?thesis by simp
qed

lemma dispatch_bare_resolved:
  assumes "promise (dispatch_bare env ev st) = Some (Resolved fr)"
  shows "promise st = Some (Resolved fr) \<or> encoded env fr"
proof (cases ev)
  case LoadedData
  then show ?thesis using assms by (simp add: dispatch_bare_def)
next
  case Seeked
  then show ?thesis using assms onseeked_bare_resolved[of env st fr]
    by (simp add: dispatch_bare_def)
next
  case MediaError
  then show ?thesis using assms by (auto simp: dispatch_bare_def dest!: promise_settle)
qed

lemma deliver_bare_resolved:
  "promise (deliver_bare env evs st) = Some (Resolved fr) \<Longrightarrow>
   promise st = Some (Resolved fr) \<or> encoded env fr"
proof (induction evs arbitrary: st)
  case Nil
  then show ?case by simp
next
  case (Cons e evs)
  obtain t ev where e: "e = (t, ev)" by (cases e)
  from Cons.prems e have "promise (deliver_bare env evs (dispatch_bare env ev st)) = Some (Resolved fr)"
    by simp
  from Cons.IH[OF this] show ?case using dispatch_bare_resolved[of env ev st fr] by blast
qed

lemma bare_resolved:
  assumes "promise (extractFirstFrame_bare env) = Some (Resolved fr)"
  shows "encoded env fr"
proof (cases "hasWindowDocument env \<and> \<not> createObjectURLThrows env")
  case False
  then show ?thesis using assms
    by (auto simp: extractFirstFrame_bare_def Let_def settle_def initialState_def
        split: if_splits)
next
  case True
  then have "promise (deliver_bare env (events env)
      (initialState\<lparr>videoCreated := True, urlLive := True, handlersAttached := True\<rparr>)) = Some (Resolved fr)"
    using assms by (simp add: extractFirstFrame_bare_def Let_def)
  from deliver_bare_resolved[OF this] show ?thesis by (simp add: initialState_def)
qed

subsection \<open>The bare variant follows a successful guarded run\<close>

lemma settle_keeps: "promise st \<noteq> None \<Longrightarrow> settle out st = st"
  by (simp add: settle_def)







subsection \<open>The two variants settle alike on well-behaved runs\<close>









subsection \<open>The bare run waits for as long as no completing event fires\<close>

lemma deliver_bare_only_loaded:
  "promise st = None \<Longrightarrow> urlLive st \<Longrightarrow> \<forall>e \<in> set evs. snd e = LoadedData \<Longrightarrow>
   promise (deliver_bare env evs st) = None \<and> urlLive (deliver_bare env evs st)"
proof (induction evs arbitrary: st)
  case Nil
  then show ?case by simp
next
  case (Cons e evs)
  obtain t ev where e: "e = (t, ev)" by (cases e)
  with Cons.prems(3) have ev: "ev = LoadedData" by simp
  have "promise (dispatch_bare env ev st) = None" "urlLive (dispatch_bare env ev st)"
    using Cons.prems(1,2) ev by (simp_all add: dispatch_bare_def)
  then show ?case using Cons.IH[of "dispatch_bare env ev st"] Cons.prems(3) e by simp
qed

lemma bare_never_settles:
  assumes "hasWindowDocument env" "\<not> createObjectURLThrows env"
    and "\<forall>e \<in> set (events env). snd e = LoadedData"
  shows "promise (extractFirstFrame_bare env) = None \<and> urlLive (extractFirstFrame_bare env)"
  using assms deliver_bare_only_loaded[of
      "initialState\<lparr>videoCreated := True, urlLive := True, handlersAttached := True\<rparr>" "events env" env]
  by (simp add: extractFirstFrame_bare_def Let_def initialState_def)

subsection \<open>The resized dimensions\<close>

lemma resize_small:
  "uint vw \<le> 1024 \<Longrightarrow> uint vh \<le> 1024 \<Longrightarrow> resizeDimensions vw vh = (uint vw, uint vh)"
  by (simp add: resizeDimensions_def Let_def)

lemma resize_large:
  fixes vw vh :: "32 word" and W H m :: int
  assumes W: "W = uint vw" and H: "H = uint vh" and m: "m = max W H"
    and pos: "0 < W" "0 < H" and big: "1024 < W \<or> 1024 < H"
    and res: "resizeDimensions vw vh = (w, h)"
  shows "w = \<lfloor>toDouble (of_int W * toDouble (1024 / of_int m))\<rfloor>"
    and "h = \<lfloor>toDouble (of_int H * toDouble (1024 / of_int m))\<rfloor>"
    and "\<bar>of_int w * of_int m - 1024 * real_of_int W\<bar> \<le> of_int m"
    and "\<bar>of_int h * of_int m - 1024 * real_of_int H\<bar> \<le> of_int m"
    and "w \<le> 1024" and "h \<le> 1024" and "1023 \<le> max w h"
proof -
  have m1: "1024 < m" using big by (auto simp: m)
  have m2: "m < 2 ^ 32" using uint_lt2p[of vw] uint_lt2p[of vh] by (simp add: m W H)
  have wm: "W \<le> m" and hm: "H \<le> m" by (simp_all add: m)
  have rwm: "real_of_int W \<le> of_int m" and rhm: "real_of_int H \<le> of_int m"
    using wm hm by (simp_all only: of_int_le_iff)
  have res': "(w, h) = (\<lfloor>toDouble (of_int W * toDouble (1024 / of_int m))\<rfloor>,
                      \<lfloor>toDouble (of_int H * toDouble (1024 / of_int m))\<rfloor>)"
    using res big unfolding resizeDimensions_def Let_def W[symmetric] H[symmetric] m[symmetric]
    by simp
  show w: "w = \<lfloor>toDouble (of_int W * toDouble (1024 / of_int m))\<rfloor>"
    and h: "h = \<lfloor>toDouble (of_int H * toDouble (1024 / of_int m))\<rfloor>"
    using res' by simp_all
  have wl: "1024 * real_of_int W / of_int m - 1 \<le> of_int w"
    and wu: "of_int w \<le> 1024 * real_of_int W / of_int m"
    unfolding w using scaled_floor[OF m1 m2 pos(1) wm] by simp_all
  have hl: "1024 * real_of_int H / of_int m - 1 \<le> of_int h"
    and hu: "of_int h \<le> 1024 * real_of_int H / of_int m"
    unfolding h using scaled_floor[OF m1 m2 pos(2) hm] by simp_all
  have m0: "0 < real_of_int m" using m1 by simp
  show "\<bar>of_int w * of_int m - 1024 * real_of_int W\<bar> \<le> of_int m"
    using wl wu m0 by (simp add: field_simps abs_le_iff)
  show "\<bar>of_int h * of_int m - 1024 * real_of_int H\<bar> \<le> of_int m"
    using hl hu m0 by (simp add: field_simps abs_le_iff)
  have "1024 * real_of_int W / of_int m \<le> 1024"
    using rwm m0 by (simp add: field_simps)
  then have "real_of_int w \<le> 1024" using wu by linarith
  then show "w \<le> 1024" by linarith
  have "1024 * real_of_int H / of_int m \<le> 1024"
    using rhm m0 by (simp add: field_simps)
  then have "real_of_int h \<le> 1024" using hu by linarith
  then show "h \<le> 1024" by linarith
  show "1023 \<le> max w h"
  proof (cases "H \<le> W")
    case True
    then have "m = W" by (simp add: m)
    then have "1024 * real_of_int W / of_int m = 1024" using m0 by simp
    then have "1023 \<le> real_of_int w" using wl by linarith
    then show ?thesis by linarith
  next
    case False
    then have "m = H" by (simp add: m)
    then have "1024 * real_of_int H / of_int m = 1024" using m0 by simp
    then have "1023 \<le> real_of_int h" using hl by linarith
    then show ?thesis by linarith
  qed
qed

lemma resize_1568_882: "resizeDimensions 1568 882 = (1023, 576)"
  by code_simp

lemma resize_4000_2000: "resizeDimensions 4000 2000 = (1024, 512)"
  by code_simp

lemma resize_640_480: "resizeDimensions 640 480 = (640, 480)"
  by (simp add: resizeDimensions_def)

subsection \<open>The seek target of the guarded variant\<close>

lemma toDouble_tenth_pos: "0 < toDouble (1 / 10)"
  by code_simp

lemma toDouble_five: "toDouble 5 = 5"
  by code_simp

text \<open>
  For a finite duration \<open>r \<ge> 0\<close> the target is \<^verbatim>\<open>0.1\<close> from \<open>r = 0.2\<close> on and the
  halved duration below; a duration that is not finite is replaced by \<open>10\<close> and gives
  \<^verbatim>\<open>0.1\<close>.
\<close>

lemma seekTarget_guarded_finite:
  assumes "0 \<le> r"
  shows "seekTarget_guarded (Num r) = (if 1 / 5 \<le> r then toDouble (1 / 10) else toDouble (r / 2))"
proof (cases "r = 0")
  case True
  then show ?thesis using toDouble_tenth_pos by (simp add: seekTarget_guarded_def toDouble_def)
next
  case False
  then have r: "0 < r" using assms by simp
  show ?thesis
  proof (cases "1 / 5 \<le> r")
    case True
    then have "1 / 10 \<le> r / 2" by simp
    then have "toDouble (1 / 10) \<le> toDouble (r / 2)" by (intro toDouble_mono_pos) simp_all
    then show ?thesis using True r by (simp add: seekTarget_guarded_def)
  next
    case False
    then have "r / 2 \<le> 1 / 10" by simp
    then have "toDouble (r / 2) \<le> toDouble (1 / 10)" using r by (intro toDouble_mono_pos) simp_all
    then show ?thesis using False r by (simp add: seekTarget_guarded_def)
  qed
qed

lemma seekTarget_guarded_not_finite:
  "d = PosInfinity \<or> d = NegInfinity \<or> d = NaN \<Longrightarrow> seekTarget_guarded d = toDouble (1 / 10)"
  using toDouble_mono_pos[of "1 / 10" 5]
  by (auto simp: seekTarget_guarded_def toDouble_five)

subsection \<open>Sample runs\<close>

lemma splitSecond_sample: "splitSecond ''data:image/jpeg;base64,AAAA'' = Some ''AAAA''"
  by (simp add: splitSecond_def)


lemma sampleRun_guarded_promise:
  assumes "resizeDimensions vw vh = (w, h)" "uint vw \<noteq> 0" "uint vh \<noteq> 0" "w \<noteq> 0" "h \<noteq> 0"
  shows "promise (extractFirstFrame_guarded (sampleRun vw vh d [(40, LoadedData), (90, Seeked)])) =
     Some (Resolved (sampleFrame w h))"
  using assms
  by (simp add: extractFirstFrame_guarded_def sampleRun_def beforeDeadline_def Let_def
      dispatch_guarded_def onseeked_guarded_def initialState_def settle_def cleanup_def
      timerFires_def sampleEncoder_def sampleFrame_def splitSecond_sample)

lemma sampleRun_bare_promise:
  assumes "resizeDimensions vw vh = (w, h)" "w \<noteq> 0" "h \<noteq> 0"
  shows "promise (extractFirstFrame_bare (sampleRun vw vh d [(40, LoadedData), (90, Seeked)])) =
     Some (Resolved (sampleFrame w h))"
  using assms
  by (simp add: extractFirstFrame_bare_def sampleRun_def Let_def
      dispatch_bare_def onseeked_bare_def initialState_def settle_def
      sampleEncoder_def sampleFrame_def splitSecond_sample)

section \<open>Properties of video generation\<close>

text \<open>The loop adds only polls by the name it was given, at most one per recorded result.\<close>

lemma pollLoop_trace:
  "pollLoop n operation polls trace = (res, trace') \<Longrightarrow>
   \<exists>k. trace' = trace @ replicate k (GetVideosOperation n) \<and> k \<le> length polls"
proof (induction polls arbitrary: operation trace)
  case Nil
  then have "trace' = trace @ replicate 0 (GetVideosOperation n) \<and> 0 \<le> length ([]::(js_error + operation) list)"
    by (auto split: if_splits)
  then show ?case by blast
next
  case (Cons r rest)
  show ?case
  proof (cases "opDone operation")
    case True
    then have "trace' = trace @ replicate 0 (GetVideosOperation n) \<and> 0 \<le> length (r # rest)"
      using Cons.prems by simp
    then show ?thesis by blast
  next
    case False
    show ?thesis
    proof (cases r)
      case (Inl e)
      then have "trace' = trace @ replicate 1 (GetVideosOperation n) \<and> 1 \<le> length (r # rest)"
        using Cons.prems False by simp
      then show ?thesis by blast
    next
      case (Inr refreshed)
      then have "pollLoop n refreshed rest (trace @ [GetVideosOperation n]) = (res, trace')"
        using Cons.prems False by simp
      from Cons.IH[OF this] obtain k where
        "trace' = (trace @ [GetVideosOperation n]) @ replicate k (GetVideosOperation n)"
        and "k \<le> length rest" by blast
      then have "trace' = trace @ replicate (Suc k) (GetVideosOperation n) \<and> Suc k \<le> length (r # rest)" by simp
      then show ?thesis by blast
    qed
  qed
qed

text \<open>
  A 404 error after any number of unfinished refreshes ends the loop at once, whatever
  the service would have answered later.
\<close>

lemma pollLoop_not_found:
  assumes "isNotFound e"
  shows "\<not> opDone operation \<Longrightarrow> \<forall>x \<in> set ops. \<not> opDone x \<Longrightarrow>
    pollLoop n operation (map Inr ops @ Inl e # later) trace =
      (Some (Inl (Some operationLostMessage)),
       trace @ replicate (Suc (length ops)) (GetVideosOperation n))"
proof (induction ops arbitrary: operation trace)
  case Nil
  then show ?case using assms by simp
next
  case (Cons x ops)
  have "pollLoop n x (map Inr ops @ Inl e # later) (trace @ [GetVideosOperation n]) =
      (Some (Inl (Some operationLostMessage)),
       (trace @ [GetVideosOperation n]) @ replicate (Suc (length ops)) (GetVideosOperation n))"
    using Cons.prems by (intro Cons.IH) simp_all
  then show ?case using Cons.prems(1) by (simp add: replicate_app_Cons_same)
qed

lemma userMessage_lost: "userMessage (Some operationLostMessage) = operationLostMessage"
  by (simp add: userMessage_def operationLostMessage_def orElse_def)

lemma operationLost_distinct:
  "operationLostMessage \<noteq> notFoundMessage" "operationLostMessage \<noteq> quotaMessage"
  "operationLostMessage \<noteq> unknownErrorMessage" "operationLostMessage \<noteq> noOperationIdMessage"
  by (simp_all add: operationLostMessage_def notFoundMessage_def quotaMessage_def
      unknownErrorMessage_def noOperationIdMessage_def)

lemma download_trace:
  "download key operation env trace = (res, trace') \<Longrightarrow>
   \<exists>rest. trace' = trace @ rest \<and> (\<forall>c \<in> set rest. \<exists>u. c = Fetch u)"
  by (auto simp: download_def Let_def split: if_splits sum.splits prod.splits)

lemma tryBody_head:
  "\<exists>rest. snd (tryBody a b c d key env) = GenerateVideos (videoRequest a b c d) # rest"
proof (cases "generateVideosResult env")
  case (Inl e)
  then show ?thesis by (simp add: tryBody_def)
next
  case (Inr operation)
  show ?thesis
  proof (cases "truthy (opName operation)")
    case False
    then show ?thesis using Inr by (auto simp: tryBody_def truthy_def split: option.splits)
  next
    case True
    then obtain n where n: "opName operation = Some n" "n \<noteq> []"
      by (auto simp: truthy_def split: option.splits)
    obtain res trace' where pl:
      "pollLoop n operation (pollResults env) [GenerateVideos (videoRequest a b c d)] = (res, trace')"
      by (cases "pollLoop n operation (pollResults env) [GenerateVideos (videoRequest a b c d)]")
    from pollLoop_trace[OF pl] obtain k where
      tr: "trace' = [GenerateVideos (videoRequest a b c d)] @ replicate k (GetVideosOperation n)"
      by blast
    show ?thesis
    proof (cases res)
      case None
      then show ?thesis using Inr n pl tr by (simp add: tryBody_def)
    next
      case (Some r)
      show ?thesis
      proof (cases r)
        case (Inl e)
        then show ?thesis using Inr n pl tr Some by (simp add: tryBody_def)
      next
        case (Inr finished)
        obtain res2 trace2 where d: "download key finished env trace' = (res2, trace2)"
          by (cases "download key finished env trace'")
        from download_trace[OF d] obtain rest where "trace2 = trace' @ rest" by blast
        then show ?thesis using \<open>generateVideosResult env = Inr operation\<close> n pl tr Some Inr d
          by (simp add: tryBody_def)
      qed
    qed
  qed
qed

lemma generateCleanVideo_head:
  assumes "apiKey env = Some key" "key \<noteq> []"
  shows "\<exists>rest. snd (generateCleanVideo a b c d env) = GenerateVideos (videoRequest a b c d) # rest"
proof -
  have "snd (generateCleanVideo a b c d env) = snd (tryBody a b c d key env)"
    using assms
    by (auto simp: generateCleanVideo_def truthy_def orElse_def split: prod.splits option.splits sum.splits)
  then show ?thesis using tryBody_head[of a b c d key env] by simp
qed

section \<open>Properties of the session controller\<close>

lemma handleProcess_trace:
  assumes "extractedFrame s = Some fr" "\<not> trimsToEmpty (prompt s)"
  shows "snd (handleProcess env s) =
     snd (generateCleanVideo (base64 fr) (mimeType fr) (prompt s)
            (if height fr \<le> width fr then ''16:9'' else ''9:16'') env)"
  using assms
  by (simp add: handleProcess_def Let_def split: prod.splits gen_result.splits)

lemma handleProcess_submits:
  assumes "extractedFrame s = Some fr" "\<not> trimsToEmpty (prompt s)"
    and "apiKey env = Some key" "key \<noteq> []"
  shows "\<exists>rest. snd (handleProcess env s) =
      GenerateVideos (videoRequest (base64 fr) (mimeType fr) (prompt s)
                        (if height fr \<le> width fr then ''16:9'' else ''9:16'')) # rest"
  using generateCleanVideo_head[OF assms(3,4)] handleProcess_trace[OF assms(1,2)] by simp

lemma handleProcess_request:
  assumes "extractedFrame s = Some fr" "\<not> trimsToEmpty (prompt s)"
    and "apiKey env = Some key" "key \<noteq> []"
  shows "\<exists>req rest. snd (handleProcess env s) = GenerateVideos req # rest \<and>
     aspectRatio req = (if height fr \<le> width fr then ''16:9'' else ''9:16'') \<and>
     imageBytes req = base64 fr \<and> imageMimeType req = mimeType fr \<and>
     req = videoRequest (base64 fr) (mimeType fr) (prompt s)
             (if height fr \<le> width fr then ''16:9'' else ''9:16'')"
proof -
  from handleProcess_submits[OF assms] obtain rest where
    "snd (handleProcess env s) =
       GenerateVideos (videoRequest (base64 fr) (mimeType fr) (prompt s)
                         (if height fr \<le> width fr then ''16:9'' else ''9:16'')) # rest"
    by blast
  moreover have "aspectRatio (videoRequest (base64 fr) (mimeType fr) (prompt s)
                   (if height fr \<le> width fr then ''16:9'' else ''9:16'')) =
                 (if height fr \<le> width fr then ''16:9'' else ''9:16'')"
    "imageBytes (videoRequest (base64 fr) (mimeType fr) (prompt s)
                   (if height fr \<le> width fr then ''16:9'' else ''9:16'')) = base64 fr"
    "imageMimeType (videoRequest (base64 fr) (mimeType fr) (prompt s)
                   (if height fr \<le> width fr then ''16:9'' else ''9:16'')) = mimeType fr"
    by (simp_all add: videoRequest_def)
  ultimately show ?thesis by blast
qed

lemma sample_extracted:
  assumes "resizeDimensions vw vh = (w, h)" "uint vw \<noteq> 0" "uint vh \<noteq> 0" "w \<noteq> 0" "h \<noteq> 0"
  shows "extractedFrame (handleFileChange extractFirstFrame_guarded (Some (sampleUpload vw vh)) url initialApp)
     = Some (sampleFrame w h)"
  using sampleRun_guarded_promise[OF assms, of "Num 5"]
  by (simp add: handleFileChange_def sampleUpload_def Let_def)

lemma not_blank_red_car: "\<not> trimsToEmpty ''a red car''"
  by (simp add: trimsToEmpty.simps whitespaceLength_def)

lemma handleReset_fields:
  "status (processingState (handleReset s)) = Idle \<and> extractedFrame (handleReset s) = None \<and>
   generatedVideoUrl (handleReset s) = None \<and> videoPreviewUrl (handleReset s) = None \<and>
   prompt (handleReset s) = [] \<and> objectURLs (handleReset s) = objectURLs s"
  by (simp add: handleReset_def processingIdle_def)

lemma completedSession_eq:
  "completedSession =
     \<lparr>videoFile = Some (sampleUpload 4000 2000), videoPreviewUrl = Some ''blob:preview'',
      prompt = ''a red car'',
      processingState = \<lparr>status = Completed, progress = None, message = None, error = None\<rparr>,
      generatedVideoUrl = Some ''blob:generated'', extractedFrame = Some (sampleFrame 1024 512),
      fileInputValue = [], objectURLs = [''blob:preview'', ''blob:generated'']\<rparr>"
proof -
  let ?s = "handleFileChange extractFirstFrame_guarded (Some (sampleUpload 4000 2000))
       ''blob:preview'' initialApp"
  have p: "promise (extractFirstFrame_guarded (run (sampleUpload 4000 2000))) = Some (Resolved (sampleFrame 1024 512))"
    using sampleRun_guarded_promise[OF resize_4000_2000, of "Num 5"]
    by (simp add: sampleUpload_def)
  have s: "?s = \<lparr>videoFile = Some (sampleUpload 4000 2000), videoPreviewUrl = Some ''blob:preview'',
      prompt = [], processingState = processingIdle,
      generatedVideoUrl = None, extractedFrame = Some (sampleFrame 1024 512),
      fileInputValue = [], objectURLs = [''blob:preview'']\<rparr>"
    using p by (simp add: handleFileChange_def initialApp_def Let_def) (simp add: sampleUpload_def)
  have g: "generateCleanVideo (Some ''AAAA'') ''image/jpeg'' ''a red car'' ''16:9'' finishingService =
    (Returned ''blob:generated'',
     [GenerateVideos (videoRequest (Some ''AAAA'') ''image/jpeg'' ''a red car'' ''16:9''),
      GetVideosOperation ''operations/abc'',
      Fetch ''https://video.example/v1?alt=media&key=test-key''])"
    by (simp add: generateCleanVideo_def finishingService_def sampleService_def truthy_def orElse_def
        tryBody_def pendingOperation_def finishedOperation_def download_def Let_def)
  show ?thesis
    unfolding completedSession_def s
    using g not_blank_red_car
    by (simp add: handleProcess_def setPrompt_def sampleFrame_def Let_def)
qed

section \<open>The claims\<close>

subsection \<open>C1: dimensions of the extracted frame\<close>

text \<open>
  Claim C1, as the code has it. Whenever the guarded \<^verbatim>\<open>extractFirstFrame\<close> resolves, the
  video's dimensions are positive. If both are at most 1024 the frame has exactly these
  dimensions. If one exceeds 1024, each dimension of the frame is the floor of the
  double-precision product of the input dimension and the double-precision quotient
  \<open>1024 / max\<close>; both are at most 1024, the longer side is 1023 or 1024, and each differs
  from the exact proportional value \<open>1024 * d / max\<close> by at most one pixel.
\<close>

theorem extracted_dimensions:
  assumes "promise (extractFirstFrame_guarded env) = Some (Resolved fr)"
  shows "0 < uint (videoWidth env) \<and> 0 < uint (videoHeight env) \<and>
     (uint (videoWidth env) \<le> 1024 \<and> uint (videoHeight env) \<le> 1024 \<longrightarrow>
        width fr = uint (videoWidth env) \<and> height fr = uint (videoHeight env)) \<and>
     (1024 < uint (videoWidth env) \<or> 1024 < uint (videoHeight env) \<longrightarrow>
        width fr = \<lfloor>toDouble (of_int (uint (videoWidth env)) *
                     toDouble (1024 / of_int (max (uint (videoWidth env)) (uint (videoHeight env)))))\<rfloor> \<and>
        height fr = \<lfloor>toDouble (of_int (uint (videoHeight env)) *
                     toDouble (1024 / of_int (max (uint (videoWidth env)) (uint (videoHeight env)))))\<rfloor> \<and>
        width fr \<le> 1024 \<and> height fr \<le> 1024 \<and> 1023 \<le> max (width fr) (height fr) \<and>
        \<bar>of_int (width fr) * of_int (max (uint (videoWidth env)) (uint (videoHeight env)))
           - 1024 * real_of_int (uint (videoWidth env))\<bar>
          \<le> of_int (max (uint (videoWidth env)) (uint (videoHeight env))) \<and>
        \<bar>of_int (height fr) * of_int (max (uint (videoWidth env)) (uint (videoHeight env)))
           - 1024 * real_of_int (uint (videoHeight env))\<bar>
          \<le> of_int (max (uint (videoWidth env)) (uint (videoHeight env))))"
proof -
  define vw where "vw = videoWidth env"
  define vh where "vh = videoHeight env"
  define m where "m = max (uint vw) (uint vh)"
  from guarded_resolved[OF assms]
  have res: "resizeDimensions vw vh = (width fr, height fr)"
    and nz: "uint vw \<noteq> 0" "uint vh \<noteq> 0"
    by (simp_all add: encoded_def vw_def vh_def)
  have pos: "0 < uint vw" "0 < uint vh" using nz uint_ge_0[of vw] uint_ge_0[of vh] by linarith+
  have small: "uint vw \<le> 1024 \<and> uint vh \<le> 1024 \<longrightarrow> width fr = uint vw \<and> height fr = uint vh"
    using res resize_small[of vw vh] by auto
  have large: "width fr = \<lfloor>toDouble (of_int (uint vw) * toDouble (1024 / of_int m))\<rfloor> \<and>
        height fr = \<lfloor>toDouble (of_int (uint vh) * toDouble (1024 / of_int m))\<rfloor> \<and>
        width fr \<le> 1024 \<and> height fr \<le> 1024 \<and> 1023 \<le> max (width fr) (height fr) \<and>
        \<bar>of_int (width fr) * of_int m - 1024 * real_of_int (uint vw)\<bar> \<le> of_int m \<and>
        \<bar>of_int (height fr) * of_int m - 1024 * real_of_int (uint vh)\<bar> \<le> of_int m"
    if big: "1024 < uint vw \<or> 1024 < uint vh"
    using resize_large[OF refl refl m_def pos big res] by blast
  show ?thesis using pos small large unfolding vw_def vh_def m_def by blast
qed

theorem extracted_dimensions_witness:
  "promise (extractFirstFrame_guarded (sampleRun 4000 2000 (Num 5) [(40, LoadedData), (90, Seeked)])) =
     Some (Resolved (sampleFrame 1024 512)) \<and>
   (1024::int) \<le> 1024 \<and> (512::int) \<le> 1024 \<and> (1023::int) \<le> max 1024 512 \<and>
   promise (extractFirstFrame_guarded (sampleRun 640 480 (Num 5) [(40, LoadedData), (90, Seeked)])) =
     Some (Resolved (sampleFrame 640 480)) \<and>
   width (sampleFrame 640 480) = uint (640 :: 32 word) \<and>
   height (sampleFrame 640 480) = uint (480 :: 32 word)"
proof -
  have p: "promise (extractFirstFrame_guarded (sampleRun 4000 2000 (Num 5) [(40, LoadedData), (90, Seeked)])) =
     Some (Resolved (sampleFrame 1024 512))"
    by (rule sampleRun_guarded_promise[OF resize_4000_2000]) simp_all
  have q: "promise (extractFirstFrame_guarded (sampleRun 640 480 (Num 5) [(40, LoadedData), (90, Seeked)])) =
     Some (Resolved (sampleFrame 640 480))"
    by (rule sampleRun_guarded_promise[OF resize_640_480]) simp_all
  have big: "1024 < uint (videoWidth (sampleRun 4000 2000 (Num 5) [(40, LoadedData), (90, Seeked)])) \<or>
     1024 < uint (videoHeight (sampleRun 4000 2000 (Num 5) [(40, LoadedData), (90, Seeked)]))"
    by (simp add: sampleRun_def)
  from extracted_dimensions[OF p] big have a:
    "width (sampleFrame 1024 512) \<le> 1024 \<and> height (sampleFrame 1024 512) \<le> 1024 \<and>
     1023 \<le> max (width (sampleFrame 1024 512)) (height (sampleFrame 1024 512))"
    by blast
  have small: "uint (videoWidth (sampleRun 640 480 (Num 5) [(40, LoadedData), (90, Seeked)])) \<le> 1024 \<and>
     uint (videoHeight (sampleRun 640 480 (Num 5) [(40, LoadedData), (90, Seeked)])) \<le> 1024"
    by (simp add: sampleRun_def)
  from extracted_dimensions[OF q] small have
    "width (sampleFrame 640 480) = uint (videoWidth (sampleRun 640 480 (Num 5) [(40, LoadedData), (90, Seeked)])) \<and>
     height (sampleFrame 640 480) = uint (videoHeight (sampleRun 640 480 (Num 5) [(40, LoadedData), (90, Seeked)]))"
    by blast
  then have b:
    "width (sampleFrame 640 480) = uint (640 :: 32 word) \<and>
     height (sampleFrame 640 480) = uint (480 :: 32 word)"
    by (simp add: sampleRun_def)
  show ?thesis using p q a b by (simp add: sampleFrame_def)
qed

text \<open>
  The longer side is not always 1024: for a 1568 \<open>\<times>\<close> 882 video the quotient
  \<^verbatim>\<open>1024 / 1568\<close> rounds down, the product \<^verbatim>\<open>1568 * scale\<close> is the double just below
  1024, and the frame is 1023 \<open>\<times>\<close> 576.
\<close>

theorem longer_side_1023_counterexample:
  "promise (extractFirstFrame_guarded (sampleRun 1568 882 (Num 5) [(40, LoadedData), (90, Seeked)])) =
     Some (Resolved (sampleFrame 1023 576)) \<and>
   1024 < uint (1568 :: 32 word) \<and>
   max (width (sampleFrame 1023 576)) (height (sampleFrame 1023 576)) \<noteq> 1024"
proof -
  have "promise (extractFirstFrame_guarded (sampleRun 1568 882 (Num 5) [(40, LoadedData), (90, Seeked)])) =
     Some (Resolved (sampleFrame 1023 576))"
    by (rule sampleRun_guarded_promise[OF resize_1568_882]) simp_all
  then show ?thesis by (simp add: sampleFrame_def)
qed

subsection \<open>C2: polling by the captured name\<close>

text \<open>
  Claim C2. With a configured key and a submission that returns an operation named
  \<open>n\<close>, the calls of \<^verbatim>\<open>generateCleanVideo\<close> are: the submission, then some number of
  polls, every one of them \<^verbatim>\<open>getVideosOperation({ name: n })\<close> with the name read before
  the loop (whatever names the refreshed operation objects carry), then at most the
  download.
\<close>

theorem poll_by_captured_name:
  assumes key: "apiKey env = Some key" "key \<noteq> []"
    and sub: "generateVideosResult env = Inr operation" "opName operation = Some n"
  shows "\<exists>k rest. snd (generateCleanVideo img mime description ratio env) =
           GenerateVideos (videoRequest img mime description ratio)
             # replicate k (GetVideosOperation n) @ rest
         \<and> k \<le> length (pollResults env) \<and> (\<forall>c \<in> set rest. \<exists>u. c = Fetch u)"
proof -
  define req where "req = GenerateVideos (videoRequest img mime description ratio)"
  have g: "snd (generateCleanVideo img mime description ratio env) =
           snd (tryBody img mime description ratio key env)"
    using key
    by (auto simp: generateCleanVideo_def truthy_def orElse_def split: prod.splits option.splits sum.splits)
  show ?thesis
  proof (cases "n = []")
    case True
    then have "snd (tryBody img mime description ratio key env) = req # replicate 0 (GetVideosOperation n) @ []"
      using sub by (simp add: tryBody_def req_def)
    then show ?thesis unfolding g req_def by (metis empty_iff list.set(1) zero_le)
  next
    case False
    obtain res trace' where pl: "pollLoop n operation (pollResults env) [req] = (res, trace')"
      by (cases "pollLoop n operation (pollResults env) [req]")
    from pollLoop_trace[OF pl] obtain k where
      tr: "trace' = [req] @ replicate k (GetVideosOperation n)" and k: "k \<le> length (pollResults env)"
      by blast
    have "\<exists>rest. snd (tryBody img mime description ratio key env) = trace' @ rest \<and>
            (\<forall>c \<in> set rest. \<exists>u. c = Fetch u)"
    proof (cases res)
      case None
      then have "snd (tryBody img mime description ratio key env) = trace' @ []"
        using sub False pl by (simp add: tryBody_def req_def)
      then show ?thesis by (metis empty_iff list.set(1))
    next
      case (Some r)
      show ?thesis
      proof (cases r)
        case (Inl e)
        then have "snd (tryBody img mime description ratio key env) = trace' @ []"
          using sub False pl Some by (simp add: tryBody_def req_def)
        then show ?thesis by (metis empty_iff list.set(1))
      next
        case (Inr finished)
        then have "tryBody img mime description ratio key env = download key finished env trace'"
          using sub False pl Some by (simp add: tryBody_def req_def)
        then show ?thesis
          using download_trace[of key finished env trace'] by (metis prod.collapse)
      qed
    qed
    then obtain rest where
      "snd (tryBody img mime description ratio key env) = req # replicate k (GetVideosOperation n) @ rest"
      "\<forall>c \<in> set rest. \<exists>u. c = Fetch u"
      using tr by auto
    then show ?thesis using k unfolding g req_def by blast
  qed
qed

theorem poll_by_captured_name_witness:
  "\<exists>k rest. snd (generateCleanVideo (Some ''AAAA'') ''image/jpeg'' ''a red car'' ''16:9''
       (sampleService (Inr (pendingOperation (Some ''operations/abc'')))
          [Inr (pendingOperation (Some ''operations/stale'')),
           Inr (finishedOperation None ''https://video.example/v1?alt=media'')])) =
           GenerateVideos (videoRequest (Some ''AAAA'') ''image/jpeg'' ''a red car'' ''16:9'')
             # replicate k (GetVideosOperation ''operations/abc'') @ rest
         \<and> k \<le> 2 \<and> (\<forall>c \<in> set rest. \<exists>u. c = Fetch u)"
proof -
  let ?env = "sampleService (Inr (pendingOperation (Some ''operations/abc'')))
          [Inr (pendingOperation (Some ''operations/stale'')),
           Inr (finishedOperation None ''https://video.example/v1?alt=media'')]"
  have len: "length (pollResults ?env) = 2" by (simp add: sampleService_def)
  have "\<exists>k rest. snd (generateCleanVideo (Some ''AAAA'') ''image/jpeg'' ''a red car'' ''16:9'' ?env) =
           GenerateVideos (videoRequest (Some ''AAAA'') ''image/jpeg'' ''a red car'' ''16:9'')
             # replicate k (GetVideosOperation ''operations/abc'') @ rest
         \<and> k \<le> length (pollResults ?env) \<and> (\<forall>c \<in> set rest. \<exists>u. c = Fetch u)"
    by (rule poll_by_captured_name[where key = "''test-key''" and operation = "pendingOperation (Some ''operations/abc'')"])
       (simp_all add: sampleService_def pendingOperation_def)
  then show ?thesis unfolding len .
qed

subsection \<open>C3: a not-found poll error ends the loop\<close>

text \<open>
  Claim C3. If the first poll that throws throws an error whose message contains
  \<^verbatim>\<open>404\<close>, after any number of polls that returned an unfinished operation, then
  \<^verbatim>\<open>generateCleanVideo\<close> throws the "operation lost" error, which differs from the
  messages of the outer \<^verbatim>\<open>catch\<close>, and the failed poll is the last call made: the
  results the service would have given later are never asked for.
\<close>

theorem not_found_aborts_polling:
  assumes key: "apiKey env = Some key" "key \<noteq> []"
    and sub: "generateVideosResult env = Inr operation" "opName operation = Some n" "n \<noteq> []"
    and pending: "\<not> opDone operation" "\<forall>x \<in> set ops. \<not> opDone x"
    and polls: "pollResults env = map Inr ops @ Inl e # later"
    and nf: "isNotFound e"
  shows "generateCleanVideo img mime description ratio env =
      (Thrown operationLostMessage,
       GenerateVideos (videoRequest img mime description ratio)
         # replicate (Suc (length ops)) (GetVideosOperation n)) \<and>
     operationLostMessage \<noteq> notFoundMessage \<and> operationLostMessage \<noteq> quotaMessage \<and>
     operationLostMessage \<noteq> unknownErrorMessage"
proof -
  have "tryBody img mime description ratio key env =
      (Some (Inl (Some operationLostMessage)),
       [GenerateVideos (videoRequest img mime description ratio)]
         @ replicate (Suc (length ops)) (GetVideosOperation n))"
    using sub polls pollLoop_not_found[OF nf pending, of n later]
    by (simp add: tryBody_def Let_def)
  then have "generateCleanVideo img mime description ratio env =
      (Thrown operationLostMessage,
       GenerateVideos (videoRequest img mime description ratio)
         # replicate (Suc (length ops)) (GetVideosOperation n))"
    using key by (simp add: generateCleanVideo_def truthy_def orElse_def userMessage_lost)
  then show ?thesis using operationLost_distinct by simp
qed

theorem not_found_aborts_polling_witness:
  "generateCleanVideo (Some ''AAAA'') ''image/jpeg'' ''a red car'' ''16:9''
     (sampleService (Inr (pendingOperation (Some ''operations/abc'')))
        [Inr (pendingOperation (Some ''operations/abc'')),
         Inl (Some ''404 NOT_FOUND: Requested entity was not found.''),
         Inr (finishedOperation (Some ''operations/abc'') ''https://video.example/v1?alt=media'')]) =
     (Thrown operationLostMessage,
      [GenerateVideos (videoRequest (Some ''AAAA'') ''image/jpeg'' ''a red car'' ''16:9''),
       GetVideosOperation ''operations/abc'', GetVideosOperation ''operations/abc''])"
proof -
  let ?later = "[Inr (finishedOperation (Some ''operations/abc'') ''https://video.example/v1?alt=media'')]"
  let ?env = "sampleService (Inr (pendingOperation (Some ''operations/abc'')))
        [Inr (pendingOperation (Some ''operations/abc'')),
         Inl (Some ''404 NOT_FOUND: Requested entity was not found.''),
         Inr (finishedOperation (Some ''operations/abc'') ''https://video.example/v1?alt=media'')]"
  have "generateCleanVideo (Some ''AAAA'') ''image/jpeg'' ''a red car'' ''16:9'' ?env =
      (Thrown operationLostMessage,
       GenerateVideos (videoRequest (Some ''AAAA'') ''image/jpeg'' ''a red car'' ''16:9'')
         # replicate (Suc (length [pendingOperation (Some ''operations/abc'')]))
             (GetVideosOperation ''operations/abc''))"
    by (rule not_found_aborts_polling[where key = "''test-key''" and operation = "pendingOperation (Some ''operations/abc'')"
          and later = ?later and e = "Some ''404 NOT_FOUND: Requested entity was not found.''",
          THEN conjunct1])
       (simp_all add: sampleService_def pendingOperation_def isNotFound_def)
  then show ?thesis by (simp add: numeral_2_eq_2)
qed


subsection \<open>C4: reset\<close>

text \<open>
  Claim C4, evaluated on the session that has uploaded a 4000 \<open>\<times>\<close> 2000 video, described
  it and received the generated video. \<^verbatim>\<open>handleReset\<close> returns it to \<open>Idle\<close> with no frame,
  no generated URL, no preview URL and an empty description, but the two object URLs the
  session held (the preview and the generated video) are still registered afterwards:
  nothing revokes them, neither the reset nor the unmount cleanup.
\<close>

theorem reset_keeps_object_urls:
  "status (processingState (handleReset completedSession)) = Idle \<and>
   extractedFrame (handleReset completedSession) = None \<and>
   generatedVideoUrl (handleReset completedSession) = None \<and>
   videoPreviewUrl (handleReset completedSession) = None \<and>
   prompt (handleReset completedSession) = [] \<and>
   videoPreviewUrl completedSession = Some ''blob:preview'' \<and>
   generatedVideoUrl completedSession = Some ''blob:generated'' \<and>
   objectURLs completedSession = [''blob:preview'', ''blob:generated''] \<and>
   objectURLs (handleReset completedSession) = [''blob:preview'', ''blob:generated''] \<and>
   objectURLs (unmountCleanup (handleReset completedSession)) = [''blob:preview'', ''blob:generated'']"
  by (simp add: completedSession_eq handleReset_def processingIdle_def unmountCleanup_def
      revokeIfSet_def initialApp_def truthy_def)

subsection \<open>C5: the extraction timeout\<close>

text \<open>
  Claim C5, evaluated on a file for which the element fires no event at all, and on one
  whose events come after 20 s. The bare variant has no timer: in the first run its promise
  stays pending and the object URL stays registered, in the second it resolves late instead
  of failing. The guarded variant rejects both runs with the timeout error and holds no
  handle afterwards.
\<close>

theorem bare_variant_never_times_out:
  "promise (extractFirstFrame_bare (sampleRun 640 480 (Num 5) [])) = None \<and>
   urlLive (extractFirstFrame_bare (sampleRun 640 480 (Num 5) [])) \<and>
   promise (extractFirstFrame_bare (sampleRun 640 480 (Num 5) [(20000, LoadedData), (20050, Seeked)]))
     = Some (Resolved (sampleFrame 640 480)) \<and>
   promise (extractFirstFrame_guarded (sampleRun 640 480 (Num 5) []))
     = Some (Rejected TimeoutExceeded) \<and>
   released (extractFirstFrame_guarded (sampleRun 640 480 (Num 5) [])) \<and>
   promise (extractFirstFrame_guarded (sampleRun 640 480 (Num 5) [(20000, LoadedData), (20050, Seeked)]))
     = Some (Rejected TimeoutExceeded)"
  by (simp add: extractFirstFrame_bare_def extractFirstFrame_guarded_def sampleRun_def
      initialState_def beforeDeadline_def timerFires_def settle_def cleanup_def released_def Let_def
      dispatch_bare_def dispatch_guarded_def onseeked_bare_def resize_640_480 sampleEncoder_def
      sampleFrame_def splitSecond_sample)

subsection \<open>C6: the seek target\<close>

text \<open>
  Claim C6, evaluated on a clip whose duration is the double \<^verbatim>\<open>0.1\<close>. After
  \<^verbatim>\<open>loadeddata\<close> the bare variant has set \<^verbatim>\<open>currentTime\<close> to \<^verbatim>\<open>0.1\<close>, the end of
  the clip; the guarded variant has set it to half the duration, which is smaller.
\<close>

theorem bare_variant_seeks_to_constant:
  "currentTime (extractFirstFrame_bare (sampleRun 640 480 (Num (toDouble (1 / 10))) [(40, LoadedData)]))
      = toDouble (1 / 10) \<and>
   currentTime (extractFirstFrame_guarded (sampleRun 640 480 (Num (toDouble (1 / 10))) [(40, LoadedData)]))
      = toDouble (toDouble (1 / 10) / 2) \<and>
   toDouble (toDouble (1 / 10) / 2) < toDouble (1 / 10)"
proof -
  have a: "0 < toDouble (1 / 10)" by (rule toDouble_tenth_pos)
  have b: "toDouble (toDouble (1 / 10) / 2) < toDouble (1 / 10)" by code_simp
  have c: "\<not> 1 / 5 \<le> toDouble (1 / 10)" by code_simp
  have t: "seekTarget_guarded (Num (toDouble (1 / 10))) = toDouble (toDouble (1 / 10) / 2)"
    using seekTarget_guarded_finite[of "toDouble (1 / 10)"] a c by simp
  show ?thesis using b
    by (simp add: extractFirstFrame_bare_def extractFirstFrame_guarded_def sampleRun_def
        initialState_def dispatch_bare_def dispatch_guarded_def seekTarget_bare_def t
        beforeDeadline_def timerFires_def settle_def cleanup_def Let_def)
qed

subsection \<open>C7: the messages of the outer catch\<close>

text \<open>
  Claim C7, as the code has it. When \<^verbatim>\<open>generateCleanVideo\<close> throws from inside its
  \<^verbatim>\<open>try\<close> block, the \<^verbatim>\<open>try\<close> block threw an error, and with \<open>raw\<close> its message (or the
  "unknown error" text when it has no message or an empty one) the thrown message is: the
  "model or operation not found" text when \<open>raw\<close> contains both \<^verbatim>\<open>404\<close> and
  \<^verbatim>\<open>entity\<close>; otherwise the "quota" text when \<open>raw\<close> contains \<^verbatim>\<open>429\<close>; otherwise
  \<open>raw\<close> itself.
\<close>

theorem error_classification:
  assumes key: "apiKey env = Some key" "key \<noteq> []"
    and thrown: "generateCleanVideo img mime description ratio env = (Thrown m, trace)"
  shows "\<exists>error. tryBody img mime description ratio key env = (Some (Inl error), trace) \<and>
     (includes_str (orElse error unknownErrorMessage) ''404'' \<and>
      includes_str (orElse error unknownErrorMessage) ''entity'' \<longrightarrow> m = notFoundMessage) \<and>
     (\<not> (includes_str (orElse error unknownErrorMessage) ''404'' \<and>
         includes_str (orElse error unknownErrorMessage) ''entity'') \<and>
      includes_str (orElse error unknownErrorMessage) ''429'' \<longrightarrow> m = quotaMessage) \<and>
     (\<not> (includes_str (orElse error unknownErrorMessage) ''404'' \<and>
         includes_str (orElse error unknownErrorMessage) ''entity'') \<and>
      \<not> includes_str (orElse error unknownErrorMessage) ''429'' \<longrightarrow>
        m = orElse error unknownErrorMessage)"
proof -
  from thrown key obtain error where
    t: "tryBody img mime description ratio key env = (Some (Inl error), trace)"
    and m: "m = userMessage error"
    by (auto simp: generateCleanVideo_def truthy_def orElse_def
        split: prod.splits option.splits sum.splits)
  show ?thesis using t unfolding m userMessage_def Let_def by auto
qed


text \<open>A 429 error of the submission is reported with the quota message.\<close>

theorem error_classification_witness:
  "generateCleanVideo (Some ''AAAA'') ''image/jpeg'' ''a red car'' ''16:9''
     (sampleService (Inl (Some ''429 Too Many Requests'')) []) =
     (Thrown quotaMessage,
      [GenerateVideos (videoRequest (Some ''AAAA'') ''image/jpeg'' ''a red car'' ''16:9'')])"
proof -
  let ?env = "sampleService (Inl (Some ''429 Too Many Requests'')) []"
  obtain m trace where g:
    "generateCleanVideo (Some ''AAAA'') ''image/jpeg'' ''a red car'' ''16:9'' ?env = (Thrown m, trace)"
    by (simp add: generateCleanVideo_def sampleService_def truthy_def orElse_def tryBody_def)
  have k: "apiKey ?env = Some ''test-key''" "''test-key'' \<noteq> []" by (simp_all add: sampleService_def)
  from error_classification[OF k g] obtain error where
    t: "tryBody (Some ''AAAA'') ''image/jpeg'' ''a red car'' ''16:9'' ''test-key'' ?env = (Some (Inl error), trace)"
    and q: "\<not> (includes_str (orElse error unknownErrorMessage) ''404'' \<and>
         includes_str (orElse error unknownErrorMessage) ''entity'') \<and>
      includes_str (orElse error unknownErrorMessage) ''429'' \<longrightarrow> m = quotaMessage"
    by blast
  from t have e: "error = Some ''429 Too Many Requests''"
    and tr: "trace = [GenerateVideos (videoRequest (Some ''AAAA'') ''image/jpeg'' ''a red car'' ''16:9'')]"
    by (simp_all add: tryBody_def sampleService_def)
  have "m = quotaMessage" using q unfolding e by (simp add: orElse_def)
  then show ?thesis using g tr by simp
qed


text \<open>
  A 404 error whose message lacks the word \<^verbatim>\<open>entity\<close> is not put in the first category:
  it reaches the caller unchanged.
\<close>

theorem not_found_without_entity_counterexample:
  "isNotFound (Some ''404 Not Found'') \<and>
   generateCleanVideo (Some ''AAAA'') ''image/jpeg'' ''a red car'' ''16:9''
     (sampleService (Inl (Some ''404 Not Found'')) []) =
     (Thrown ''404 Not Found'',
      [GenerateVideos (videoRequest (Some ''AAAA'') ''image/jpeg'' ''a red car'' ''16:9'')]) \<and>
   ''404 Not Found'' \<noteq> notFoundMessage"
  by (simp add: generateCleanVideo_def sampleService_def truthy_def orElse_def tryBody_def
      userMessage_def isNotFound_def notFoundMessage_def)


subsection \<open>C8: the aspect ratio of the submission\<close>

text \<open>
  Claim C8. When a frame is ready, the description is not blank and a key is configured,
  the first call of \<^verbatim>\<open>handleProcess\<close> is the submission, and the \<^verbatim>\<open>aspectRatio\<close> of
  its configuration is \<^verbatim>\<open>16:9\<close> if the frame's width is at least its height and
  \<^verbatim>\<open>9:16\<close> otherwise; the request carries the frame's payload and mime type. In
  particular a 4000 \<open>\<times>\<close> 2000 upload gives a frame of width 1024 and height 512, and with
  the description "a red car" the submission has the \<^verbatim>\<open>aspectRatio\<close> \<^verbatim>\<open>16:9\<close>.
\<close>

theorem aspect_ratio_submitted:
  "(extractedFrame s = Some fr \<and> \<not> trimsToEmpty (prompt s) \<and> apiKey env = Some key \<and> key \<noteq> []
      \<longrightarrow> (\<exists>req rest. snd (handleProcess env s) = GenerateVideos req # rest \<and>
             aspectRatio req = (if height fr \<le> width fr then ''16:9'' else ''9:16'') \<and>
             imageBytes req = base64 fr \<and> imageMimeType req = mimeType fr \<and>
             req = videoRequest (base64 fr) (mimeType fr) (prompt s)
                     (if height fr \<le> width fr then ''16:9'' else ''9:16''))) \<and>
   (\<exists>fr. extractedFrame (handleFileChange extractFirstFrame_guarded (Some (sampleUpload 4000 2000))
       ''blob:preview'' initialApp) = Some fr \<and> width fr = 1024 \<and> height fr = 512) \<and>
   (\<exists>req rest. snd (handleProcess finishingService
      (setPrompt ''a red car''
         (handleFileChange extractFirstFrame_guarded (Some (sampleUpload 4000 2000))
            ''blob:preview'' initialApp))) = GenerateVideos req # rest \<and>
      aspectRatio req = ''16:9'')"
proof -
  let ?s = "handleFileChange extractFirstFrame_guarded (Some (sampleUpload 4000 2000))
       ''blob:preview'' initialApp"
  have f: "extractedFrame ?s = Some (sampleFrame 1024 512)"
    by (rule sample_extracted[OF resize_4000_2000]) simp_all
  have f': "extractedFrame (setPrompt ''a red car'' ?s) = Some (sampleFrame 1024 512)"
    using f by (simp add: setPrompt_def)
  have p: "\<not> trimsToEmpty (prompt (setPrompt ''a red car'' ?s))"
    using not_blank_red_car by (simp add: setPrompt_def)
  have k: "apiKey finishingService = Some ''test-key''" "''test-key'' \<noteq> []"
    by (simp_all add: finishingService_def sampleService_def)
  have general: "\<exists>req rest. snd (handleProcess env s) = GenerateVideos req # rest \<and>
             aspectRatio req = (if height fr \<le> width fr then ''16:9'' else ''9:16'') \<and>
             imageBytes req = base64 fr \<and> imageMimeType req = mimeType fr \<and>
             req = videoRequest (base64 fr) (mimeType fr) (prompt s)
                     (if height fr \<le> width fr then ''16:9'' else ''9:16'')"
    if "extractedFrame s = Some fr" "\<not> trimsToEmpty (prompt s)" "apiKey env = Some key" "key \<noteq> []"
    using handleProcess_request[OF that] .
  have dims: "\<exists>fr. extractedFrame ?s = Some fr \<and> width fr = 1024 \<and> height fr = 512"
    using f by (simp add: sampleFrame_def)
  have scenario: "\<exists>req rest. snd (handleProcess finishingService (setPrompt ''a red car'' ?s)) =
      GenerateVideos req # rest \<and> aspectRatio req = ''16:9''"
    using handleProcess_request[OF f' p k] by (auto simp: sampleFrame_def)
  show ?thesis using general dims scenario by blast
qed

theorem aspect_ratio_submitted_witness:
  "extractedFrame (setPrompt ''a red car''
      (handleFileChange extractFirstFrame_bare (Some (sampleUpload 1080 1920)) ''blob:preview'' initialApp))
     = Some (sampleFrame 576 1024) \<and>
   \<not> trimsToEmpty (prompt (setPrompt ''a red car''
      (handleFileChange extractFirstFrame_bare (Some (sampleUpload 1080 1920)) ''blob:preview'' initialApp))) \<and>
   apiKey finishingService = Some ''test-key'' \<and> ''test-key'' \<noteq> [] \<and>
   (\<exists>req rest. snd (handleProcess finishingService (setPrompt ''a red car''
      (handleFileChange extractFirstFrame_bare (Some (sampleUpload 1080 1920)) ''blob:preview'' initialApp))) =
      GenerateVideos req # rest \<and> aspectRatio req = ''9:16'' \<and>
      imageBytes req = Some ''AAAA'' \<and> imageMimeType req = ''image/jpeg'')"
proof -
  let ?s = "setPrompt ''a red car''
      (handleFileChange extractFirstFrame_bare (Some (sampleUpload 1080 1920)) ''blob:preview'' initialApp)"
  have r: "resizeDimensions 1080 1920 = (576, 1024)" by code_simp
  have "promise (extractFirstFrame_bare (run (sampleUpload 1080 1920))) = Some (Resolved (sampleFrame 576 1024))"
    using sampleRun_bare_promise[OF r, of "Num 5"] by (simp add: sampleUpload_def)
  then have f: "extractedFrame ?s = Some (sampleFrame 576 1024)"
    by (simp add: handleFileChange_def setPrompt_def sampleUpload_def Let_def)
  have p: "\<not> trimsToEmpty (prompt ?s)"
    using not_blank_red_car by (simp add: setPrompt_def)
  have k: "apiKey finishingService = Some ''test-key''" "''test-key'' \<noteq> []"
    by (simp_all add: finishingService_def sampleService_def)
  from aspect_ratio_submitted[of ?s "sampleFrame 576 1024" finishingService "''test-key''"] f p k
  have "\<exists>req rest. snd (handleProcess finishingService ?s) = GenerateVideos req # rest \<and>
      aspectRatio req =
        (if height (sampleFrame 576 1024) \<le> width (sampleFrame 576 1024) then ''16:9'' else ''9:16'') \<and>
      imageBytes req = base64 (sampleFrame 576 1024) \<and>
      imageMimeType req = mimeType (sampleFrame 576 1024)"
    by blast
  then have "\<exists>req rest. snd (handleProcess finishingService ?s) = GenerateVideos req # rest \<and>
      aspectRatio req = ''9:16'' \<and> imageBytes req = Some ''AAAA'' \<and> imageMimeType req = ''image/jpeg''"
    by (simp add: sampleFrame_def)
  then show ?thesis using f p k by blast
qed

subsection \<open>C9: the two variants\<close>




subsection \<open>C10: the mime type\<close>

text \<open>
  Claim C10. Whichever variant resolves, the frame's \<^verbatim>\<open>mimeType\<close> is the string
  \<^verbatim>\<open>image/jpeg\<close>, and its payload is the second comma-separated piece of a data URL
  that the canvas returned for \<^verbatim>\<open>toDataURL('image/jpeg', 0.85)\<close> at the frame's
  dimensions. Nothing of the file enters but what the element decoded.
\<close>

theorem mime_type_jpeg:
  assumes "promise (extractFirstFrame_guarded env) = Some (Resolved fr) \<or>
           promise (extractFirstFrame_bare env) = Some (Resolved fr)"
  shows "mimeType fr = ''image/jpeg'' \<and>
     (\<exists>t d. encode env ''image/jpeg'' (toDouble (85 / 100)) t (width fr) (height fr) = Some d \<and>
            base64 fr = splitSecond d)"
proof -
  have "encoded env fr" using assms guarded_resolved[of env fr] bare_resolved[of env fr] by blast
  then show ?thesis by (simp add: encoded_def jpegQuality_def)
qed

theorem mime_type_jpeg_witness:
  "promise (extractFirstFrame_guarded (sampleRun 4000 2000 (Num 5) [(40, LoadedData), (90, Seeked)])) =
     Some (Resolved (sampleFrame 1024 512)) \<and>
   mimeType (sampleFrame 1024 512) = ''image/jpeg'' \<and>
   promise (extractFirstFrame_bare (sampleRun 640 480 (Num 5) [(40, LoadedData), (90, Seeked)])) =
     Some (Resolved (sampleFrame 640 480)) \<and>
   mimeType (sampleFrame 640 480) = ''image/jpeg''"
proof -
  have p: "promise (extractFirstFrame_guarded (sampleRun 4000 2000 (Num 5) [(40, LoadedData), (90, Seeked)])) =
     Some (Resolved (sampleFrame 1024 512))"
    by (rule sampleRun_guarded_promise[OF resize_4000_2000]) simp_all
  have q: "promise (extractFirstFrame_bare (sampleRun 640 480 (Num 5) [(40, LoadedData), (90, Seeked)])) =
     Some (Resolved (sampleFrame 640 480))"
    by (rule sampleRun_bare_promise[OF resize_640_480]) simp_all
  from mime_type_jpeg[OF disjI1, OF p] mime_type_jpeg[OF disjI2, OF q] show ?thesis
    using p q by blast
qed

end
